theory Spec2Isabelle
  imports Complex_Main
begin

section \<open>JavaScript values used by the availability utilities\<close>

text \<open>
  The utilities of \<^verbatim>\<open>src/lib/availability.ts\<close> compute with JavaScript numbers, strings and
  \<^verbatim>\<open>Date\<close> objects.  Strings are modelled as \<^typ>\<open>string\<close> (code units below 256).

  A number is \<open>NaN\<close>, an exactly represented integer \<open>Num n\<close> (magnitude at most \<open>2^53\<close>),
  or \<open>Untracked\<close>: a value this development does not follow (a fraction, an infinity, an
  integer that a double rounds, or anything computed from one of those).  Nothing is proved
  about an \<open>Untracked\<close> result.
\<close>

datatype jsnum = NaN | Num int | Untracked

definition safe_num :: "int \<Rightarrow> jsnum" where
  "safe_num n = (if \<bar>n\<bar> \<le> 9007199254740992 then Num n else Untracked)"

fun js_mul :: "jsnum \<Rightarrow> jsnum \<Rightarrow> jsnum" where
  "js_mul NaN _ = NaN"
| "js_mul _ NaN = NaN"
| "js_mul (Num a) (Num b) = safe_num (a * b)"
| "js_mul _ _ = Untracked"

fun js_add :: "jsnum \<Rightarrow> jsnum \<Rightarrow> jsnum" where
  "js_add NaN _ = NaN"
| "js_add _ NaN = NaN"
| "js_add (Num a) (Num b) = safe_num (a + b)"
| "js_add _ _ = Untracked"

subsection \<open>String to number: \<^verbatim>\<open>Number(s)\<close>\<close>

definition is_digit :: "char \<Rightarrow> bool" where
  "is_digit c = (48 \<le> (of_char c :: nat) \<and> (of_char c :: nat) \<le> 57)"

definition digit_val :: "char \<Rightarrow> nat" where
  "digit_val c = (of_char c :: nat) - 48"

text \<open>White space and line terminators that \<^verbatim>\<open>Number\<close> strips: TAB, LF, VT, FF, CR, SP, NBSP.\<close>

definition is_space :: "char \<Rightarrow> bool" where
  "is_space c = ((of_char c :: nat) \<in> {9, 10, 11, 12, 13, 32, 160})"

definition trim_js :: "string \<Rightarrow> string" where
  "trim_js s = rev (dropWhile is_space (rev (dropWhile is_space s)))"

definition all_digits :: "string \<Rightarrow> bool" where
  "all_digits ds = (ds \<noteq> [] \<and> list_all is_digit ds)"

definition dec_value :: "string \<Rightarrow> nat" where
  "dec_value ds = foldl (\<lambda>a c. 10 * a + digit_val c) 0 ds"

text \<open>Digits in a radix up to 16, for the \<^verbatim>\<open>0x\<close>, \<^verbatim>\<open>0o\<close> and \<^verbatim>\<open>0b\<close> literals.\<close>

definition radix_digit :: "char \<Rightarrow> nat option" where
  "radix_digit c =
     (let k = (of_char c :: nat) in
      if 48 \<le> k \<and> k \<le> 57 then Some (k - 48)
      else if 97 \<le> k \<and> k \<le> 102 then Some (k - 87)
      else if 65 \<le> k \<and> k \<le> 70 then Some (k - 55)
      else None)"

definition radix_ok :: "nat \<Rightarrow> string \<Rightarrow> bool" where
  "radix_ok r ds =
     (ds \<noteq> [] \<and> list_all (\<lambda>c. case radix_digit c of None \<Rightarrow> False | Some v \<Rightarrow> v < r) ds)"

definition radix_value :: "nat \<Rightarrow> string \<Rightarrow> nat" where
  "radix_value r ds = foldl (\<lambda>a c. r * a + (case radix_digit c of Some v \<Rightarrow> v | None \<Rightarrow> 0)) 0 ds"

text \<open>The exponent part of a decimal literal: empty, or \<^verbatim>\<open>e\<close>/\<^verbatim>\<open>E\<close>, an optional sign and digits.\<close>

definition exponent_ok :: "string \<Rightarrow> bool" where
  "exponent_ok r =
     (case r of
        [] \<Rightarrow> True
      | c # t \<Rightarrow> (c = CHR ''e'' \<or> c = CHR ''E'') \<and>
          (case t of
             [] \<Rightarrow> False
           | d # u \<Rightarrow> if d = CHR ''+'' \<or> d = CHR ''-'' then all_digits u else all_digits t))"

text \<open>
  An unsigned decimal literal that is not a plain digit string: \<^verbatim>\<open>Infinity\<close>,
  or digits with a fraction and/or an exponent.
\<close>

definition other_decimal :: "string \<Rightarrow> bool" where
  "other_decimal s =
     (s = ''Infinity'' \<or>
      (let ip = takeWhile is_digit s; r = dropWhile is_digit s in
       case r of
         [] \<Rightarrow> False
       | c # r2 \<Rightarrow>
           if c = CHR ''.'' then
             (ip \<noteq> [] \<or> takeWhile is_digit r2 \<noteq> []) \<and> exponent_ok (dropWhile is_digit r2)
           else ip \<noteq> [] \<and> exponent_ok r))"

definition unsigned_decimal :: "string \<Rightarrow> jsnum" where
  "unsigned_decimal s =
     (if all_digits s then safe_num (int (dec_value s))
      else if other_decimal s then Untracked
      else NaN)"

definition non_decimal :: "string \<Rightarrow> jsnum option" where
  "non_decimal s =
     (case s of
        z # p # ds \<Rightarrow>
          if z \<noteq> CHR ''0'' then None
          else if p = CHR ''x'' \<or> p = CHR ''X'' then
            Some (if radix_ok 16 ds then safe_num (int (radix_value 16 ds)) else NaN)
          else if p = CHR ''o'' \<or> p = CHR ''O'' then
            Some (if radix_ok 8 ds then safe_num (int (radix_value 8 ds)) else NaN)
          else if p = CHR ''b'' \<or> p = CHR ''B'' then
            Some (if radix_ok 2 ds then safe_num (int (radix_value 2 ds)) else NaN)
          else None
      | _ \<Rightarrow> None)"

definition js_neg :: "jsnum \<Rightarrow> jsnum" where
  "js_neg x = (case x of Num n \<Rightarrow> Num (- n) | _ \<Rightarrow> x)"

definition Number_js :: "string \<Rightarrow> jsnum" where
  "Number_js str =
     (let s = trim_js str in
      if s = [] then Num 0
      else case non_decimal s of
        Some v \<Rightarrow> v
      | None \<Rightarrow>
          if hd s = CHR ''+'' then unsigned_decimal (tl s)
          else if hd s = CHR ''-'' then js_neg (unsigned_decimal (tl s))
          else unsigned_decimal s)"

subsection \<open>\<^verbatim>\<open>String.prototype.split\<close> with a one-character separator\<close>

fun split_js :: "char \<Rightarrow> string \<Rightarrow> string list" where
  "split_js sep [] = [[]]"
| "split_js sep (c # cs) =
     (if c = sep then [] # split_js sep cs
      else (case split_js sep cs of p # ps \<Rightarrow> (c # p) # ps | [] \<Rightarrow> [[c]]))"

text \<open>
  Array destructuring \<^verbatim>\<open>const [hours, minutes] = ...\<close>: a missing element is
  \<^verbatim>\<open>undefined\<close>, which arithmetic converts to \<open>NaN\<close>.
\<close>

definition elem_or_undefined :: "jsnum list \<Rightarrow> nat \<Rightarrow> jsnum" where
  "elem_or_undefined xs i = (if i < length xs then xs ! i else NaN)"

subsection \<open>Number to string for integers, and \<^verbatim>\<open>padStart\<close>\<close>

definition digit_char :: "nat \<Rightarrow> char" where
  "digit_char d = ''0123456789'' ! d"

fun show_nat :: "nat \<Rightarrow> string" where
  "show_nat n = (if n < 10 then [digit_char n] else show_nat (n div 10) @ [digit_char (n mod 10)])"

declare show_nat.simps [simp del]

definition show_int :: "int \<Rightarrow> string" where
  "show_int i = (if i < 0 then CHR ''-'' # show_nat (nat (- i)) else show_nat (nat i))"

definition padStart :: "nat \<Rightarrow> char \<Rightarrow> string \<Rightarrow> string" where
  "padStart n c s = replicate (n - length s) c @ s"

text \<open>The remainder operator \<^verbatim>\<open>%\<close>: the result has the sign of the dividend.\<close>

definition js_rem :: "int \<Rightarrow> int \<Rightarrow> int" where
  "js_rem a b = sgn a * (\<bar>a\<bar> mod \<bar>b\<bar>)"

section \<open>Time utilities\<close>

text \<open>
  \<^verbatim>\<open>
  export function timeToMinutes(time: string): number {
    const [hours, minutes] = time.split(':').map(Number)
    return hours * 60 + minutes
  }
  \<close>
  There is no validation and no \<^verbatim>\<open>throw\<close>: the result is always a number value.
\<close>

definition timeToMinutes :: "string \<Rightarrow> jsnum" where
  "timeToMinutes time =
     (let parts = map Number_js (split_js CHR '':'' time);
          hours = elem_or_undefined parts 0;
          minutes = elem_or_undefined parts 1
      in js_add (js_mul hours (Num 60)) minutes)"

text \<open>
  \<^verbatim>\<open>
  export function minutesToTime(minutes: number): string {
    const hours = Math.floor(minutes / 60)
    const mins = minutes % 60
    return `${hours.toString().padStart(2, '0')}:${mins.toString().padStart(2, '0')}`
  }
  \<close>
  The argument is an integer number of minutes.
\<close>

definition minutesToTime :: "int \<Rightarrow> string" where
  "minutesToTime minutes =
     (let hours = minutes div 60;
          mins = js_rem minutes 60
      in padStart 2 CHR ''0'' (show_int hours) @ '':'' @ padStart 2 CHR ''0'' (show_int mins))"

text \<open>
  \<^verbatim>\<open>
  export function timeRangesOverlap(start1: Date, end1: Date, start2: Date, end2: Date): boolean {
    return start1 < end2 && start2 < end1
  }
  \<close>
  A valid \<^verbatim>\<open>Date\<close> is its time value: milliseconds since the epoch, an integer.
\<close>

type_synonym date = int

definition timeRangesOverlap :: "date \<Rightarrow> date \<Rightarrow> date \<Rightarrow> date \<Rightarrow> bool" where
  "timeRangesOverlap start1 end1 start2 end2 = (start1 < end2 \<and> start2 < end1)"

section \<open>Dates\<close>

text \<open>
  \<^verbatim>\<open>new Date()\<close> and the local time zone are inputs of the program.  One call reads
  the clock several times within a few milliseconds; the model takes a single reading
  \<open>now\<close> for the call.  The local time zone is a fixed offset from UTC, in minutes
  (no daylight-saving transitions).
\<close>

record env =
  now :: date
  tzOffsetMinutes :: int

definition msPerDay :: int where
  "msPerDay = 86400000"

definition localTime :: "env \<Rightarrow> date \<Rightarrow> int" where
  "localTime e t = t + tzOffsetMinutes e * 60000"

definition utcTime :: "env \<Rightarrow> int \<Rightarrow> date" where
  "utcTime e t = t - tzOffsetMinutes e * 60000"

definition getDay :: "env \<Rightarrow> date \<Rightarrow> int" where
  "getDay e t = (localTime e t div msPerDay + 4) mod 7"

definition getHours :: "env \<Rightarrow> date \<Rightarrow> int" where
  "getHours e t = (localTime e t div 3600000) mod 24"

definition getMinutes :: "env \<Rightarrow> date \<Rightarrow> int" where
  "getMinutes e t = (localTime e t div 60000) mod 60"

definition getSeconds :: "env \<Rightarrow> date \<Rightarrow> int" where
  "getSeconds e t = (localTime e t div 1000) mod 60"

definition getMilliseconds :: "env \<Rightarrow> date \<Rightarrow> int" where
  "getMilliseconds e t = localTime e t mod 1000"

text \<open>\<^verbatim>\<open>d.setHours(h, m, s, ms)\<close>: the local calendar day of \<open>d\<close> with a new time of day.\<close>

definition setHours :: "env \<Rightarrow> date \<Rightarrow> int \<Rightarrow> int \<Rightarrow> int \<Rightarrow> int \<Rightarrow> date" where
  "setHours e t h m s ms =
     utcTime e ((localTime e t div msPerDay) * msPerDay + h * 3600000 + m * 60000 + s * 1000 + ms)"

text \<open>\<^verbatim>\<open>d.setMinutes(m)\<close>: hour, second and millisecond are kept.\<close>

definition setMinutes :: "env \<Rightarrow> date \<Rightarrow> int \<Rightarrow> date" where
  "setMinutes e t m =
     utcTime e ((localTime e t div msPerDay) * msPerDay + getHours e t * 3600000 + m * 60000
                + getSeconds e t * 1000 + getMilliseconds e t)"

text \<open>\<^verbatim>\<open>d.setDate(d.getDate() + 1)\<close>: the same local time of day on the next day.\<close>

definition nextDay :: "date \<Rightarrow> date" where
  "nextDay t = t + msPerDay"

section \<open>The stored data\<close>

datatype lessonStatus = PENDING | CONFIRMED | COMPLETED | CANCELLED | EXPIRED

record lesson =
  lesson_teacherId :: string
  lesson_status :: lessonStatus
  lesson_scheduledAt :: date
  lesson_duration :: int

record blockedTime =
  blocked_userId :: string
  blocked_startTime :: date
  blocked_endTime :: date
  blocked_reason :: "string option"

record availability =
  avail_userId :: string
  avail_dayOfWeek :: int
  avail_startTime :: string
  avail_endTime :: string
  avail_isAvailable :: bool

record bookingSettings =
  settings_userId :: string
  bufferMinutes :: int
  minAdvanceHours :: int
  maxAdvanceDays :: int
  allowedDurations :: "int list"

text \<open>The tables the queries read; \<^verbatim>\<open>findFirst\<close> returns the first matching row.\<close>

record db =
  lessonTable :: "lesson list"
  blockedTimeTable :: "blockedTime list"
  availabilityTable :: "availability list"
  bookingSettingsTable :: "bookingSettings list"

text \<open>Comparison of text columns (\<^verbatim>\<open>lte\<close>, \<^verbatim>\<open>gte\<close>): lexicographic on code units.\<close>

fun str_le :: "string \<Rightarrow> string \<Rightarrow> bool" where
  "str_le [] _ = True"
| "str_le (c # cs) [] = False"
| "str_le (c # cs) (d # ds) =
     ((of_char c :: nat) < of_char d \<or> (c = d \<and> str_le cs ds))"

section \<open>Availability checking\<close>

record verdict =
  available :: bool
  reason :: "string option"

definition conflictingLesson :: "db \<Rightarrow> string \<Rightarrow> date \<Rightarrow> date \<Rightarrow> lesson option" where
  "conflictingLesson d teacherId startTime endTime =
     find (\<lambda>l. lesson_teacherId l = teacherId
               \<and> (lesson_status l = PENDING \<or> lesson_status l = CONFIRMED)
               \<and> startTime \<le> lesson_scheduledAt l \<and> lesson_scheduledAt l < endTime)
          (lessonTable d)"

definition findBlockedTime :: "db \<Rightarrow> string \<Rightarrow> date \<Rightarrow> date \<Rightarrow> blockedTime option" where
  "findBlockedTime d teacherId startTime endTime =
     find (\<lambda>b. blocked_userId b = teacherId
               \<and> blocked_startTime b \<le> startTime \<and> endTime \<le> blocked_endTime b)
          (blockedTimeTable d)"

definition hhmm :: "env \<Rightarrow> date \<Rightarrow> string" where
  "hhmm e t = padStart 2 CHR ''0'' (show_int (getHours e t)) @ '':''
              @ padStart 2 CHR ''0'' (show_int (getMinutes e t))"

definition findAvailability :: "env \<Rightarrow> db \<Rightarrow> string \<Rightarrow> date \<Rightarrow> date \<Rightarrow> availability option" where
  "findAvailability e d teacherId startTime endTime =
     (let dayOfWeek = getDay e startTime;
          startTimeStr = hhmm e startTime;
          endTimeStr = hhmm e endTime
      in find (\<lambda>a. avail_userId a = teacherId \<and> avail_dayOfWeek a = dayOfWeek
                    \<and> avail_isAvailable a
                    \<and> str_le (avail_startTime a) startTimeStr
                    \<and> str_le endTimeStr (avail_endTime a))
              (availabilityTable d))"

definition findSettings :: "db \<Rightarrow> string \<Rightarrow> bookingSettings option" where
  "findSettings d teacherId = find (\<lambda>s. settings_userId s = teacherId) (bookingSettingsTable d)"

text \<open>\<^verbatim>\<open>a || b\<close> on an optional string: \<^verbatim>\<open>null\<close> and the empty string are falsy.\<close>

definition or_else :: "string option \<Rightarrow> string \<Rightarrow> string" where
  "or_else a b = (case a of None \<Rightarrow> b | Some s \<Rightarrow> if s = [] then b else s)"

text \<open>
  \<^verbatim>\<open>isTeacherAvailable(teacherId, startTime, endTime)\<close>.  The two quotients
  \<^verbatim>\<open>hoursUntilLesson\<close> and \<^verbatim>\<open>daysUntilLesson\<close> are exact rationals here.
\<close>

definition isTeacherAvailable :: "env \<Rightarrow> db \<Rightarrow> string \<Rightarrow> date \<Rightarrow> date \<Rightarrow> verdict" where
  "isTeacherAvailable e d teacherId startTime endTime =
     (case conflictingLesson d teacherId startTime endTime of
        Some l \<Rightarrow> \<lparr>available = False, reason = Some ''Teacher has another lesson at this time''\<rparr>
      | None \<Rightarrow>
     (case findBlockedTime d teacherId startTime endTime of
        Some b \<Rightarrow> \<lparr>available = False,
                   reason = Some (or_else (blocked_reason b) ''Teacher is unavailable at this time'')\<rparr>
      | None \<Rightarrow>
     (case findAvailability e d teacherId startTime endTime of
        None \<Rightarrow> \<lparr>available = False, reason = Some ''Outside teacher's regular availability''\<rparr>
      | Some a \<Rightarrow>
     (case findSettings d teacherId of
        None \<Rightarrow> \<lparr>available = True, reason = None\<rparr>
      | Some settings \<Rightarrow>
          (let hoursUntilLesson = (of_int (startTime - now e) :: rat) / (1000 * 60 * 60) in
           if hoursUntilLesson < of_int (minAdvanceHours settings) then
             \<lparr>available = False,
              reason = Some (''Need at least '' @ show_int (minAdvanceHours settings)
                             @ '' hours advance notice'')\<rparr>
           else
             (let daysUntilLesson = hoursUntilLesson / 24 in
              if daysUntilLesson > of_int (maxAdvanceDays settings) then
                \<lparr>available = False,
                 reason = Some (''Can only book up to '' @ show_int (maxAdvanceDays settings)
                                @ '' days in advance'')\<rparr>
              else \<lparr>available = True, reason = None\<rparr>))))))"

section \<open>Time slot generation\<close>

record slot =
  slot_startTime :: date
  slot_endTime :: date
  slot_available :: bool

text \<open>
  The inner loop of \<^verbatim>\<open>generateTimeSlots\<close>, for integer minute values:
  \<^verbatim>\<open>
  for (let minutes = startMinutes; minutes + duration <= endMinutes; minutes += slotInterval) {
    const slotStart = new Date(currentDate)
    slotStart.setHours(Math.floor(minutes / 60), minutes % 60, 0, 0)
    const slotEnd = new Date(slotStart)
    slotEnd.setMinutes(slotEnd.getMinutes() + duration)
    if (slotStart < new Date()) { continue }
    const { available } = await isTeacherAvailable(teacherId, slotStart, slotEnd)
    slots.push({ startTime: slotStart, endTime: slotEnd, available })
  }
  \<close>
  The loop need not end (\<open>slotInterval \<le> 0\<close>): not returning is \<open>None\<close>.
\<close>

partial_function (option) slotLoop ::
  "env \<Rightarrow> db \<Rightarrow> string \<Rightarrow> date \<Rightarrow> int \<Rightarrow> int \<Rightarrow> int \<Rightarrow> slot list \<Rightarrow> int \<Rightarrow> slot list option"
where
  "slotLoop e d teacherId currentDate duration slotInterval endMinutes slots minutes =
     (if minutes + duration \<le> endMinutes then
        (let slotStart = setHours e currentDate (minutes div 60) (js_rem minutes 60) 0 0;
             slotEnd = setMinutes e slotStart (getMinutes e slotStart + duration)
         in if slotStart < now e then
              slotLoop e d teacherId currentDate duration slotInterval endMinutes slots
                (minutes + slotInterval)
            else
              slotLoop e d teacherId currentDate duration slotInterval endMinutes
                (slots @ [\<lparr>slot_startTime = slotStart, slot_endTime = slotEnd,
                           slot_available =
                             available (isTeacherAvailable e d teacherId slotStart slotEnd)\<rparr>])
                (minutes + slotInterval))
      else Some slots)"

declare slotLoop.simps [code]

text \<open>
  What a call does: it returns a value, it runs forever, or it computes with a number
  this development does not follow.
\<close>

datatype 'a outcome = Returns 'a | Diverges | Unfollowed

text \<open>
  The slots of one day, from the rule's two time strings.  A comparison with \<open>NaN\<close> is
  false, so the loop body never runs when either bound is \<open>NaN\<close>.
\<close>

definition daySlots ::
  "env \<Rightarrow> db \<Rightarrow> string \<Rightarrow> date \<Rightarrow> int \<Rightarrow> int \<Rightarrow> availability \<Rightarrow> slot list \<Rightarrow> slot list outcome"
where
  "daySlots e d teacherId currentDate duration slotInterval dayAvailability slots =
     (let startMinutes = timeToMinutes (avail_startTime dayAvailability);
          endMinutes = timeToMinutes (avail_endTime dayAvailability)
      in case (startMinutes, endMinutes) of
           (NaN, _) \<Rightarrow> Returns slots
         | (_, NaN) \<Rightarrow> Returns slots
         | (Num s, Num en) \<Rightarrow>
             (case slotLoop e d teacherId currentDate duration slotInterval en slots s of
                None \<Rightarrow> Diverges
              | Some slots' \<Rightarrow> Returns slots')
         | _ \<Rightarrow> Unfollowed)"

text \<open>
  \<^verbatim>\<open>
  while (currentDate <= endDate) {
    const dayOfWeek = currentDate.getDay()
    const dayAvailability = availabilities.find(a => a.dayOfWeek === dayOfWeek)
    if (dayAvailability) { ... }
    currentDate.setDate(currentDate.getDate() + 1)
  }
  \<close>
\<close>

function dayLoop ::
  "env \<Rightarrow> db \<Rightarrow> string \<Rightarrow> availability list \<Rightarrow> date \<Rightarrow> int \<Rightarrow> int \<Rightarrow> slot list \<Rightarrow> date
     \<Rightarrow> slot list outcome"
where
  "dayLoop e d teacherId availabilities endDate duration slotInterval slots currentDate =
     (if currentDate \<le> endDate then
        (case find (\<lambda>a. avail_dayOfWeek a = getDay e currentDate) availabilities of
           None \<Rightarrow>
             dayLoop e d teacherId availabilities endDate duration slotInterval slots
               (nextDay currentDate)
         | Some dayAvailability \<Rightarrow>
             (case daySlots e d teacherId currentDate duration slotInterval dayAvailability slots of
                Returns slots' \<Rightarrow>
                  dayLoop e d teacherId availabilities endDate duration slotInterval slots'
                    (nextDay currentDate)
              | Diverges \<Rightarrow> Diverges
              | Unfollowed \<Rightarrow> Unfollowed))
      else Returns slots)"
  by pat_completeness auto
termination
  by (relation "measure (\<lambda>(e, d, teacherId, availabilities, endDate, duration, slotInterval,
                            slots, currentDate). nat (endDate - currentDate + 1))")
     (auto simp: nextDay_def msPerDay_def)

declare dayLoop.simps [simp del]

text \<open>
  \<^verbatim>\<open>generateTimeSlots(teacherId, startDate, endDate, duration)\<close>.
  \<^verbatim>\<open>settings?.bufferMinutes || 15\<close> is 15 when there is no settings row and also when
  the stored value is 0.
\<close>

definition generateTimeSlots :: "env \<Rightarrow> db \<Rightarrow> string \<Rightarrow> date \<Rightarrow> date \<Rightarrow> int \<Rightarrow> slot list outcome" where
  "generateTimeSlots e d teacherId startDate endDate duration =
     (let availabilities =
            filter (\<lambda>a. avail_userId a = teacherId \<and> avail_isAvailable a) (availabilityTable d)
      in if availabilities = [] then Returns []
         else
           (let settings = findSettings d teacherId;
                bufferMinutes =
                  (case settings of
                     None \<Rightarrow> 15
                   | Some s \<Rightarrow> if bufferMinutes s = 0 then 15 else bufferMinutes s);
                slotInterval = duration + bufferMinutes;
                currentDate = setHours e startDate 0 0 0 0
            in dayLoop e d teacherId availabilities endDate duration slotInterval [] currentDate))"

section \<open>Booking validation\<close>

record validation =
  valid :: bool
  errors :: "string list"

text \<open>\<^verbatim>\<open>xs.join(', ')\<close> on an array of integers.\<close>

fun join_ints :: "int list \<Rightarrow> string" where
  "join_ints [] = []"
| "join_ints [x] = show_int x"
| "join_ints (x # y # ys) = show_int x @ '', '' @ join_ints (y # ys)"

text \<open>
  \<^verbatim>\<open>validateBooking(teacherId, startTime, duration)\<close>: four checks, each pushing at most
  one message onto \<^verbatim>\<open>errors\<close>, in this order.
\<close>

definition pastErrors :: "env \<Rightarrow> date \<Rightarrow> string list" where
  "pastErrors e startTime =
     (if startTime < now e then [''Cannot book lessons in the past''] else [])"

definition availabilityErrors :: "env \<Rightarrow> db \<Rightarrow> string \<Rightarrow> date \<Rightarrow> int \<Rightarrow> string list" where
  "availabilityErrors e d teacherId startTime duration =
     (let endTime = startTime + duration * 60000;
          v = isTeacherAvailable e d teacherId startTime endTime
      in if \<not> available v then [or_else (reason v) ''Teacher not available''] else [])"

definition durationErrors :: "db \<Rightarrow> string \<Rightarrow> int \<Rightarrow> string list" where
  "durationErrors d teacherId duration =
     (case findSettings d teacherId of
        None \<Rightarrow> []
      | Some settings \<Rightarrow>
          if duration \<notin> set (allowedDurations settings) then
            [''Duration must be one of: '' @ join_ints (allowedDurations settings) @ '' minutes'']
          else [])"

definition hourErrors :: "env \<Rightarrow> date \<Rightarrow> string list" where
  "hourErrors e startTime =
     (let hour = getHours e startTime
      in if hour < 6 \<or> hour > 23 then [''Please select a time between 6 AM and 11 PM''] else [])"

definition validateBooking :: "env \<Rightarrow> db \<Rightarrow> string \<Rightarrow> date \<Rightarrow> int \<Rightarrow> validation" where
  "validateBooking e d teacherId startTime duration =
     (let errs = pastErrors e startTime
               @ availabilityErrors e d teacherId startTime duration
               @ durationErrors d teacherId duration
               @ hourErrors e startTime
      in \<lparr>valid = (length errs = 0), errors = errs\<rparr>)"

section \<open>Calendar export\<close>

subsection \<open>\<^verbatim>\<open>Date.prototype.toISOString\<close>\<close>

text \<open>Day number of the first day of year \<open>y\<close>, and the year a day number falls in.\<close>

definition dayFromYear :: "int \<Rightarrow> int" where
  "dayFromYear y = 365 * (y - 1970) + (y - 1969) div 4 - (y - 1901) div 100 + (y - 1601) div 400"

definition inLeapYear :: "int \<Rightarrow> bool" where
  "inLeapYear y = (y mod 4 = 0 \<and> (y mod 100 \<noteq> 0 \<or> y mod 400 = 0))"

definition yearFromDay :: "int \<Rightarrow> int" where
  "yearFromDay day =
     (let y = 1970 + (day * 400) div 146097 in
      if dayFromYear (y + 1) \<le> day then y + 1
      else if day < dayFromYear y then y - 1
      else y)"

text \<open>Day number within the year of the first day of each month (0 = January).\<close>

definition monthStart :: "bool \<Rightarrow> int \<Rightarrow> int" where
  "monthStart leap m =
     (if m \<le> 0 then 0
      else if m = 1 then 31
      else (if leap then 1 else 0) +
        (if m = 2 then 59 else if m = 3 then 90 else if m = 4 then 120 else if m = 5 then 151
         else if m = 6 then 181 else if m = 7 then 212 else if m = 8 then 243
         else if m = 9 then 273 else if m = 10 then 304 else if m = 11 then 334 else 365))"

definition monthFromDay :: "bool \<Rightarrow> int \<Rightarrow> int" where
  "monthFromDay leap dayInYear =
     (if dayInYear < monthStart leap 1 then 0
      else if dayInYear < monthStart leap 2 then 1
      else if dayInYear < monthStart leap 3 then 2
      else if dayInYear < monthStart leap 4 then 3
      else if dayInYear < monthStart leap 5 then 4
      else if dayInYear < monthStart leap 6 then 5
      else if dayInYear < monthStart leap 7 then 6
      else if dayInYear < monthStart leap 8 then 7
      else if dayInYear < monthStart leap 9 then 8
      else if dayInYear < monthStart leap 10 then 9
      else if dayInYear < monthStart leap 11 then 10
      else 11)"

definition pad_int :: "nat \<Rightarrow> int \<Rightarrow> string" where
  "pad_int n v = padStart n CHR ''0'' (show_int v)"

text \<open>Four digits for the years 0 to 9999, a sign and six digits otherwise.\<close>

definition yearString :: "int \<Rightarrow> string" where
  "yearString y =
     (if 0 \<le> y \<and> y \<le> 9999 then pad_int 4 y
      else (if y < 0 then ''-'' else ''+'') @ pad_int 6 \<bar>y\<bar>)"

definition toISOString :: "date \<Rightarrow> string" where
  "toISOString t =
     (let day = t div msPerDay;
          timeInDay = t mod msPerDay;
          y = yearFromDay day;
          dayInYear = day - dayFromYear y;
          m = monthFromDay (inLeapYear y) dayInYear;
          dt = dayInYear - monthStart (inLeapYear y) m + 1
      in yearString y @ ''-'' @ pad_int 2 (m + 1) @ ''-'' @ pad_int 2 dt @ ''T''
         @ pad_int 2 (timeInDay div 3600000) @ '':''
         @ pad_int 2 (timeInDay div 60000 mod 60) @ '':''
         @ pad_int 2 (timeInDay div 1000 mod 60) @ ''.''
         @ pad_int 3 (timeInDay mod 1000) @ ''Z'')"

subsection \<open>\<^verbatim>\<open>generateICalendar\<close>\<close>

record person =
  person_name :: string
  person_email :: string

record calLesson =
  cal_id :: string
  cal_title :: string
  cal_scheduledAt :: date
  cal_duration :: int
  cal_teacher :: person
  cal_student :: person

text \<open>
  \<^verbatim>\<open>
  const formatDate = (date: Date) => {
    return date.toISOString().replace(/[-:]/g, '').split('.')[0] + 'Z'
  }
  \<close>
\<close>

definition formatDate :: "date \<Rightarrow> string" where
  "formatDate date =
     hd (split_js CHR ''.'' (filter (\<lambda>c. c \<noteq> CHR ''-'' \<and> c \<noteq> CHR '':'') (toISOString date)))
     @ ''Z''"

definition CRLF :: string where
  "CRLF = [CHR 0x0D, CHR 0x0A]"

text \<open>\<^verbatim>\<open>lines.join(sep)\<close>\<close>

fun join_js :: "string \<Rightarrow> string list \<Rightarrow> string" where
  "join_js sep [] = []"
| "join_js sep [x] = x"
| "join_js sep (x # y # ys) = x @ sep @ join_js sep (y # ys)"

definition eventLines :: "env \<Rightarrow> calLesson \<Rightarrow> string list" where
  "eventLines e lesson =
     (let start = cal_scheduledAt lesson;
          end = start + cal_duration lesson * 60000
      in [''BEGIN:VEVENT'',
          ''UID:'' @ cal_id lesson @ ''@skillexchange.com'',
          ''DTSTAMP:'' @ formatDate (now e),
          ''DTSTART:'' @ formatDate start,
          ''DTEND:'' @ formatDate end,
          ''SUMMARY:'' @ cal_title lesson,
          ''DESCRIPTION:Lesson with '' @ person_name (cal_teacher lesson),
          ''ORGANIZER;CN='' @ person_name (cal_teacher lesson) @ '':mailto:''
             @ person_email (cal_teacher lesson),
          ''ATTENDEE;CN='' @ person_name (cal_student lesson) @ '':mailto:''
             @ person_email (cal_student lesson),
          ''STATUS:CONFIRMED'',
          ''END:VEVENT''])"

definition icalLines :: "env \<Rightarrow> calLesson list \<Rightarrow> string list" where
  "icalLines e lessons =
     [''BEGIN:VCALENDAR'', ''VERSION:2.0'', ''PRODID:-//Skill Exchange Platform//EN'',
      ''CALSCALE:GREGORIAN'']
     @ concat (map (eventLines e) lessons)
     @ [''END:VCALENDAR'']"

definition generateICalendar :: "env \<Rightarrow> calLesson list \<Rightarrow> string" where
  "generateICalendar e lessons = join_js CRLF (icalLines e lessons)"

section \<open>Notions used to state the properties\<close>

text \<open>
  A valid time string: two digits, a colon, two digits, with the hour in 00..23 and the
  minute in 00..59.
\<close>

fun valid_hhmm :: "string \<Rightarrow> bool" where
  "valid_hhmm [a, b, c, d, e] =
     (is_digit a \<and> is_digit b \<and> c = CHR '':'' \<and> is_digit d \<and> is_digit e \<and>
      10 * digit_val a + digit_val b \<le> 23 \<and> 10 * digit_val d + digit_val e \<le> 59)"
| "valid_hhmm _ = False"

text \<open>The lines of a text whose line terminator is CRLF.\<close>

fun split_crlf :: "string \<Rightarrow> string list" where
  "split_crlf [] = [[]]"
| "split_crlf [c] = [[c]]"
| "split_crlf (c # d # cs) =
     (if c = CHR 0x0D \<and> d = CHR 0x0A then [] # split_crlf cs
      else (case split_crlf (d # cs) of p # ps \<Rightarrow> (c # p) # ps | [] \<Rightarrow> [[c]]))"

text \<open>The values of the content lines \<open>name:value\<close> with the given property name.\<close>

definition property_values :: "string \<Rightarrow> string list \<Rightarrow> string list" where
  "property_values name lines =
     map (drop (length name + 1)) (filter (\<lambda>ln. take (length name + 1) ln = name @ '':'') lines)"

text \<open>A string without a carriage return, and a lesson all of whose text fields are such.\<close>

definition single_line :: "string \<Rightarrow> bool" where
  "single_line s = (CHR 0x0D \<notin> set s)"

definition single_line_fields :: "calLesson \<Rightarrow> bool" where
  "single_line_fields l =
     (single_line (cal_id l) \<and> single_line (cal_title l)
      \<and> single_line (person_name (cal_teacher l)) \<and> single_line (person_email (cal_teacher l))
      \<and> single_line (person_name (cal_student l)) \<and> single_line (person_email (cal_student l)))"

text \<open>Instants from 0000-01-01T00:00:00.000Z up to 9999-12-31T23:59:59.999Z.\<close>

definition four_digit_year :: "date \<Rightarrow> bool" where
  "four_digit_year t = (- 62167219200000 \<le> t \<and> t < 253402300800000)"

text \<open>
  Reading a stamp \<open>YYYYMMDDTHHMMSSZ\<close> back: the number of seconds since the epoch that it
  denotes.
\<close>

definition decodeStamp :: "string \<Rightarrow> int option" where
  "decodeStamp s =
     (if length s = 16 \<and> s ! 8 = CHR ''T'' \<and> s ! 15 = CHR ''Z''
         \<and> list_all is_digit (take 8 s) \<and> list_all is_digit (take 6 (drop 9 s))
      then
        (let y = int (dec_value (take 4 s));
             mo = int (dec_value (take 2 (drop 4 s)));
             dd = int (dec_value (take 2 (drop 6 s)));
             hh = int (dec_value (take 2 (drop 9 s)));
             mi = int (dec_value (take 2 (drop 11 s)));
             ss = int (dec_value (take 2 (drop 13 s)))
         in Some ((dayFromYear y + monthStart (inLeapYear y) (mo - 1) + (dd - 1)) * 86400
                  + hh * 3600 + mi * 60 + ss))
      else None)"

text \<open>Every slot of a list carries the availability the check gives for its interval.\<close>

definition verdict_kept :: "env \<Rightarrow> db \<Rightarrow> string \<Rightarrow> slot list \<Rightarrow> bool" where
  "verdict_kept e d teacherId slots =
     list_all (\<lambda>sl. slot_available sl =
                 available (isTeacherAvailable e d teacherId (slot_startTime sl) (slot_endTime sl)))
       slots"

section \<open>A small schedule used in the examples\<close>

text \<open>
  Teacher \<open>t1\<close> teaches on Mondays from 09:00 to 17:00.  Monday 5 January 2026, 00:00 UTC is
  the instant 1767571200000; the clock of \<open>demo_env\<close> reads 1 January 2026, 00:00 UTC, and
  local time is UTC.  \<open>demo_lesson\<close> is a confirmed lesson on that Monday from 10:00 to 11:00.
\<close>

definition demo_env :: env where
  "demo_env = \<lparr>now = 1767225600000, tzOffsetMinutes = 0\<rparr>"

definition demo_rule :: availability where
  "demo_rule = \<lparr>avail_userId = ''t1'', avail_dayOfWeek = 1, avail_startTime = ''09:00'',
                 avail_endTime = ''17:00'', avail_isAvailable = True\<rparr>"

definition demo_lesson :: lesson where
  "demo_lesson = \<lparr>lesson_teacherId = ''t1'', lesson_status = CONFIRMED,
                   lesson_scheduledAt = 1767607200000, lesson_duration = 60\<rparr>"

definition demo_settings :: bookingSettings where
  "demo_settings = \<lparr>settings_userId = ''t1'', bufferMinutes = 15, minAdvanceHours = 24,
                     maxAdvanceDays = 90, allowedDurations = [30, 60, 90, 120]\<rparr>"

text \<open>The teacher without a settings row, and with one.\<close>

definition demo_db :: db where
  "demo_db = \<lparr>lessonTable = [demo_lesson], blockedTimeTable = [],
               availabilityTable = [demo_rule], bookingSettingsTable = []\<rparr>"

definition demo_db_policy :: db where
  "demo_db_policy = \<lparr>lessonTable = [demo_lesson], blockedTimeTable = [],
                      availabilityTable = [demo_rule], bookingSettingsTable = [demo_settings]\<rparr>"

text \<open>A lesson to export: Monday 5 January 2026, 10:00 to 11:00 UTC.\<close>

definition demo_cal_lesson :: calLesson where
  "demo_cal_lesson =
     \<lparr>cal_id = ''L1'', cal_title = ''Python: Lists'', cal_scheduledAt = 1767607200000,
      cal_duration = 60,
      cal_teacher = \<lparr>person_name = ''Asha'', person_email = ''asha@example.com''\<rparr>,
      cal_student = \<lparr>person_name = ''Ravi'', person_email = ''ravi@example.com''\<rparr>\<rparr>"

text \<open>
  A settings row with \<open>bufferMinutes = 0\<close>, and a Monday rule from 09:00 to 12:00.
\<close>

definition demo_db_zero_buffer :: db where
  "demo_db_zero_buffer =
     \<lparr>lessonTable = [], blockedTimeTable = [],
      availabilityTable = [demo_rule\<lparr>avail_endTime := ''12:00''\<rparr>],
      bookingSettingsTable = [demo_settings\<lparr>bufferMinutes := 0\<rparr>]\<rparr>"

text \<open>
  A Monday rule from 10:00 to 11:00, once with the confirmed lesson in that hour and once
  with the whole Monday blocked for the reason \<open>Vacation\<close>.
\<close>

definition demo_db_lesson_hour :: db where
  "demo_db_lesson_hour =
     \<lparr>lessonTable = [demo_lesson], blockedTimeTable = [],
      availabilityTable = [demo_rule\<lparr>avail_startTime := ''10:00'', avail_endTime := ''11:00''\<rparr>],
      bookingSettingsTable = []\<rparr>"

definition demo_db_blocked_hour :: db where
  "demo_db_blocked_hour =
     \<lparr>lessonTable = [],
      blockedTimeTable = [\<lparr>blocked_userId = ''t1'', blocked_startTime = 1767571200000,
                           blocked_endTime = 1767657600000, blocked_reason = Some ''Vacation''\<rparr>],
      availabilityTable = [demo_rule\<lparr>avail_startTime := ''10:00'', avail_endTime := ''11:00''\<rparr>],
      bookingSettingsTable = []\<rparr>"

section \<open>Digits and time strings\<close>

lemma is_digit_cases: "is_digit c \<Longrightarrow> c \<in> set ''0123456789''"
proof -
  assume d: "is_digit c"
  define k where "k = (of_char c :: nat)"
  from d have "k \<in> {48, 49, 50, 51, 52, 53, 54, 55, 56, 57}"
    unfolding is_digit_def k_def by simp arith
  then have "k \<in> (of_char ` set ''0123456789'')" by simp
  then show ?thesis unfolding k_def by (auto simp only: inj_image_mem_iff[OF inj_of_char])
qed

lemma is_digit_not_colon: "is_digit c \<Longrightarrow> c \<noteq> CHR '':''"
  by (auto simp: is_digit_def)

lemma Number_two_digits:
  "is_digit a \<Longrightarrow> is_digit b \<Longrightarrow> Number_js [a, b] = Num (int (10 * digit_val a + digit_val b))"
  apply (drule is_digit_cases)+
  apply simp
  apply (elim disjE; simp add: Number_js_def trim_js_def is_space_def non_decimal_def
      unsigned_decimal_def all_digits_def is_digit_def dec_value_def digit_val_def safe_num_def)
  done

lemma show_two_digits:
  "is_digit a \<Longrightarrow> is_digit b \<Longrightarrow>
   padStart 2 CHR ''0'' (show_int (int (10 * digit_val a + digit_val b))) = [a, b]"
  apply (drule is_digit_cases)+
  apply simp
  apply (elim disjE; simp add: padStart_def show_int_def show_nat.simps digit_val_def digit_char_def)
  done

lemma split_hhmm:
  "is_digit a \<Longrightarrow> is_digit b \<Longrightarrow> is_digit d \<Longrightarrow> is_digit e \<Longrightarrow>
   split_js CHR '':'' [a, b, CHR '':'', d, e] = [[a, b], [d, e]]"
  by (simp add: is_digit_not_colon)

lemma valid_hhmm_shape:
  "valid_hhmm s \<Longrightarrow>
   \<exists>a b d e. s = [a, b, CHR '':'', d, e] \<and> is_digit a \<and> is_digit b \<and> is_digit d \<and> is_digit e \<and>
      10 * digit_val a + digit_val b \<le> 23 \<and> 10 * digit_val d + digit_val e \<le> 59"
  by (cases s rule: valid_hhmm.cases) auto

lemma timeToMinutes_valid:
  assumes dg: "is_digit a" "is_digit b" "is_digit d" "is_digit e"
    and h: "10 * digit_val a + digit_val b \<le> 23"
    and m: "10 * digit_val d + digit_val e \<le> 59"
  shows "timeToMinutes [a, b, CHR '':'', d, e] =
         Num (int (10 * digit_val a + digit_val b) * 60 + int (10 * digit_val d + digit_val e))"
proof -
  have sp: "split_js CHR '':'' [a, b, CHR '':'', d, e] = [[a, b], [d, e]]"
    using dg by (rule split_hhmm)
  show ?thesis
    using h m unfolding timeToMinutes_def sp
    by (simp add: dg Number_two_digits elem_or_undefined_def safe_num_def Let_def)
qed

text \<open>
  C6.  For every valid time string \<open>s\<close> (\<open>HH:MM\<close>, two digits each, hour 00 to 23 and minute
  00 to 59), \<open>timeToMinutes s\<close> is an integer number of minutes and \<open>minutesToTime\<close> of that
  number is \<open>s\<close> again.
\<close>

theorem minutesToTime_timeToMinutes:
  assumes "valid_hhmm s"
  shows "\<exists>n. timeToMinutes s = Num n \<and> minutesToTime n = s"
proof -
  from valid_hhmm_shape[OF assms] obtain a b d e where s: "s = [a, b, CHR '':'', d, e]"
    and dg: "is_digit a" "is_digit b" "is_digit d" "is_digit e"
    and h: "10 * digit_val a + digit_val b \<le> 23"
    and m: "10 * digit_val d + digit_val e \<le> 59"
    by blast
  define hh where "hh = 10 * digit_val a + digit_val b"
  define mm where "mm = 10 * digit_val d + digit_val e"
  have t: "timeToMinutes s = Num (int hh * 60 + int mm)"
    unfolding s hh_def mm_def using dg h m by (rule timeToMinutes_valid)
  have dv: "(int hh * 60 + int mm) div 60 = int hh"
    using m unfolding mm_def by simp
  have rm: "js_rem (int hh * 60 + int mm) 60 = int mm"
    using m unfolding mm_def js_rem_def by (simp add: sgn_if)
  have "minutesToTime (int hh * 60 + int mm) = s"
    unfolding minutesToTime_def Let_def dv rm unfolding hh_def mm_def s
    using show_two_digits[OF dg(1) dg(2)] show_two_digits[OF dg(3) dg(4)] by simp
  with t show ?thesis by blast
qed

theorem minutesToTime_timeToMinutes_witness:
  "valid_hhmm ''14:30'' \<and> timeToMinutes ''14:30'' = Num 870 \<and> minutesToTime 870 = ''14:30''"
proof -
  have v: "valid_hhmm ''14:30''"
    by (simp add: is_digit_def digit_val_def)
  from minutesToTime_timeToMinutes[OF v]
  obtain n where n: "timeToMinutes ''14:30'' = Num n" "minutesToTime n = ''14:30''"
    by blast
  have "timeToMinutes ''14:30'' = Num 870"
    by (simp add: timeToMinutes_def Number_js_def trim_js_def is_space_def non_decimal_def
        unsigned_decimal_def all_digits_def is_digit_def dec_value_def digit_val_def safe_num_def
        elem_or_undefined_def)
  with n have "n = 870" by simp
  with n v show ?thesis by simp
qed

section \<open>Overlap of time ranges\<close>

text \<open>
  C7.  \<open>timeRangesOverlap s1 e1 s2 e2\<close> is true exactly when \<open>s1 < e2\<close> and \<open>s2 < e1\<close>; it is
  symmetric in its two ranges; and ranges that only touch, such as \<open>[0,60)\<close> and \<open>[60,120)\<close>,
  do not overlap.
\<close>

theorem timeRangesOverlap_halfopen_symmetric:
  "timeRangesOverlap s1 e1 s2 e2 = (s1 < e2 \<and> s2 < e1)
   \<and> timeRangesOverlap s1 e1 s2 e2 = timeRangesOverlap s2 e2 s1 e1
   \<and> \<not> timeRangesOverlap a b b c
   \<and> \<not> timeRangesOverlap 0 60 60 120"
  by (auto simp: timeRangesOverlap_def)

section \<open>The business-hours check of the validator\<close>

text \<open>
  C10.  The hour of day is always between 0 and 23, so the branch \<open>hour > 23\<close> of the
  business-hours check is never taken: the check adds its message exactly when the hour is
  below 6, every start with hour 6 or later (23:59 included) passes it, and the message is
  the last part of the validator's error list.
\<close>

theorem hour_upper_bound_unreachable:
  "0 \<le> getHours e startTime \<and> \<not> getHours e startTime > 23
   \<and> hourErrors e startTime =
       (if getHours e startTime < 6 then [''Please select a time between 6 AM and 11 PM''] else [])
   \<and> errors (validateBooking e d teacherId startTime duration) =
       pastErrors e startTime @ availabilityErrors e d teacherId startTime duration
       @ durationErrors d teacherId duration
       @ (if getHours e startTime < 6 then [''Please select a time between 6 AM and 11 PM''] else [])"
  by (simp add: hourErrors_def validateBooking_def getHours_def Let_def)

theorem hour_upper_bound_unreachable_witness:
  "getHours demo_env 1767657540000 = 23 \<and> getMinutes demo_env 1767657540000 = 59
   \<and> hourErrors demo_env 1767657540000 = []"
proof -
  have h: "getHours demo_env 1767657540000 = 23"
    by (simp add: getHours_def localTime_def demo_env_def)
  have m: "getMinutes demo_env 1767657540000 = 59"
    by (simp add: getMinutes_def localTime_def demo_env_def)
  from hour_upper_bound_unreachable[of demo_env 1767657540000] h m show ?thesis by simp
qed

section \<open>The availability check\<close>

text \<open>
  What the first check does find: a lesson of the teacher with status PENDING or CONFIRMED
  that starts inside the candidate interval (\<open>startTime \<le> scheduledAt < endTime\<close>).  The
  answer is then unavailable with the reason "Teacher has another lesson at this time",
  whatever the blocked times, weekly rules and settings are.
\<close>

lemma lesson_start_in_interval_unavailable:
  assumes "l \<in> set (lessonTable d)"
    and "lesson_teacherId l = teacherId"
    and "lesson_status l = PENDING \<or> lesson_status l = CONFIRMED"
    and "startTime \<le> lesson_scheduledAt l"
    and "lesson_scheduledAt l < endTime"
  shows "isTeacherAvailable e d teacherId startTime endTime =
         \<lparr>available = False, reason = Some ''Teacher has another lesson at this time''\<rparr>"
proof -
  have "conflictingLesson d teacherId startTime endTime \<noteq> None"
    unfolding conflictingLesson_def find_None_iff using assms by blast
  then show ?thesis by (auto simp: isTeacherAvailable_def)
qed

lemma lesson_start_in_interval_example:
  "isTeacherAvailable demo_env demo_db ''t1'' 1767607200000 1767610800000 =
       \<lparr>available = False, reason = Some ''Teacher has another lesson at this time''\<rparr>"
proof -
  have 1: "demo_lesson \<in> set (lessonTable demo_db)" by (simp add: demo_db_def)
  have 2: "lesson_teacherId demo_lesson = ''t1''" by (simp add: demo_lesson_def)
  have 3: "lesson_status demo_lesson = CONFIRMED" by (simp add: demo_lesson_def)
  have 4: "(1767607200000 :: int) \<le> lesson_scheduledAt demo_lesson" by (simp add: demo_lesson_def)
  have 5: "lesson_scheduledAt demo_lesson < 1767610800000" by (simp add: demo_lesson_def)
  from lesson_start_in_interval_unavailable[OF 1 2 disjI2[OF 3] 4 5, of demo_env]
  show ?thesis .
qed

text \<open>
  C1.  The claim asks for the answer unavailable, with the "another lesson" reason, whenever
  a PENDING or CONFIRMED lesson of the teacher overlaps the candidate interval.  The code
  compares only the lesson's start with the interval and never reads its duration: the
  confirmed lesson of \<open>demo_db\<close> runs from 10:00 to 11:00 and overlaps the candidate interval
  10:30 to 11:30, yet the check answers available, and \<open>validateBooking\<close> accepts a
  60-minute booking at 10:30.
\<close>

theorem overlapping_lesson_reported_available:
  "lesson_teacherId demo_lesson = ''t1'' \<and> lesson_status demo_lesson = CONFIRMED
   \<and> demo_lesson \<in> set (lessonTable demo_db)
   \<and> timeRangesOverlap (lesson_scheduledAt demo_lesson)
        (lesson_scheduledAt demo_lesson + lesson_duration demo_lesson * 60000)
        1767609000000 1767612600000
   \<and> isTeacherAvailable demo_env demo_db ''t1'' 1767609000000 1767612600000 =
       \<lparr>available = True, reason = None\<rparr>
   \<and> validateBooking demo_env demo_db ''t1'' 1767609000000 60 =
       \<lparr>valid = True, errors = []\<rparr>"
  by code_simp

subsection \<open>Advance notice and booking horizon\<close>

lemma hours_less_iff:
  "((of_int x :: rat) / (1000 * 60 * 60) < of_int m) = (x < m * 3600000)"
proof -
  have "((of_int x :: rat) / 3600000 < of_int m) = ((of_int x :: rat) < of_int m * 3600000)"
    by (simp add: divide_less_eq)
  also have "\<dots> = ((of_int x :: rat) < of_int (m * 3600000))" by simp
  also have "\<dots> = (x < m * 3600000)" by (rule of_int_less_iff)
  finally show ?thesis by simp
qed

lemma days_greater_iff:
  "((of_int x :: rat) / (1000 * 60 * 60) / 24 > of_int k) = (x > k * 86400000)"
proof -
  have "((of_int x :: rat) / 3600000 / 24 > of_int k) = ((of_int x :: rat) > of_int k * 86400000)"
    by (simp add: less_divide_eq)
  also have "\<dots> = ((of_int x :: rat) > of_int (k * 86400000))" by simp
  also have "\<dots> = (x > k * 86400000)" by (rule of_int_less_iff)
  finally show ?thesis by simp
qed

text \<open>
  C2 (as amended).  For a candidate interval that passes the lesson, blocked-time and
  weekly-rule checks: a teacher with no settings row is available, however close to or far
  from now the interval starts (no default limits are applied).  For a teacher with a
  settings row the two limits of that row are checked in order, advance notice first: when
  the start is less than \<open>minAdvanceHours\<close> hours after now the answer is unavailable with
  the advance-notice reason (also when the start is more than \<open>maxAdvanceDays\<close> days after
  now); when the start is at least \<open>minAdvanceHours\<close> hours and more than \<open>maxAdvanceDays\<close>
  days after now the answer is unavailable with the horizon reason; otherwise the answer is
  available.
\<close>

theorem policy_only_with_settings:
  assumes "conflictingLesson d teacherId startTime endTime = None"
    and "findBlockedTime d teacherId startTime endTime = None"
    and "findAvailability e d teacherId startTime endTime = Some a"
  shows "(findSettings d teacherId = None \<longrightarrow>
            isTeacherAvailable e d teacherId startTime endTime =
            \<lparr>available = True, reason = None\<rparr>)
       \<and> (\<forall>s. findSettings d teacherId = Some s \<longrightarrow>
            (startTime - now e < minAdvanceHours s * 3600000 \<longrightarrow>
               isTeacherAvailable e d teacherId startTime endTime =
               \<lparr>available = False,
                reason = Some (''Need at least '' @ show_int (minAdvanceHours s)
                               @ '' hours advance notice'')\<rparr>)
          \<and> (\<not> startTime - now e < minAdvanceHours s * 3600000 \<longrightarrow>
               maxAdvanceDays s * 86400000 < startTime - now e \<longrightarrow>
               isTeacherAvailable e d teacherId startTime endTime =
               \<lparr>available = False,
                reason = Some (''Can only book up to '' @ show_int (maxAdvanceDays s)
                               @ '' days in advance'')\<rparr>)
          \<and> (\<not> startTime - now e < minAdvanceHours s * 3600000 \<longrightarrow>
               \<not> maxAdvanceDays s * 86400000 < startTime - now e \<longrightarrow>
               isTeacherAvailable e d teacherId startTime endTime =
               \<lparr>available = True, reason = None\<rparr>))"
proof (cases "findSettings d teacherId")
  case None
  then show ?thesis using assms by (simp add: isTeacherAvailable_def)
next
  case (Some st)
  then show ?thesis using assms
    by (simp add: isTeacherAvailable_def Let_def hours_less_iff days_greater_iff)
qed

text \<open>
  Four instances on the demo schedule, on Monday 5 January 2026 and Monday 13 April 2026:
  no settings row and a start two hours after now; a settings row (24 hours, 90 days) and the
  same start; that settings row and a start 102 days after now; and a settings row asking for
  48 hours and at most 1 day with a start 36 hours after now, where the start is outside
  both limits and the advance-notice reason is the one given.
\<close>

theorem policy_only_with_settings_witness:
  "isTeacherAvailable (demo_env\<lparr>now := 1767605400000\<rparr>) demo_db ''t1''
      1767612600000 1767616200000 = \<lparr>available = True, reason = None\<rparr>
   \<and> isTeacherAvailable (demo_env\<lparr>now := 1767605400000\<rparr>) demo_db_policy ''t1''
      1767612600000 1767616200000 =
      \<lparr>available = False, reason = Some ''Need at least 24 hours advance notice''\<rparr>
   \<and> isTeacherAvailable demo_env demo_db_policy ''t1'' 1776070800000 1776074400000 =
      \<lparr>available = False, reason = Some ''Can only book up to 90 days in advance''\<rparr>
   \<and> 1 * 86400000 < 1767612600000 - now (demo_env\<lparr>now := 1767483000000\<rparr>)
   \<and> isTeacherAvailable (demo_env\<lparr>now := 1767483000000\<rparr>)
        (demo_db_policy\<lparr>bookingSettingsTable :=
           [demo_settings\<lparr>minAdvanceHours := 48, maxAdvanceDays := 1\<rparr>]\<rparr>)
        ''t1'' 1767612600000 1767616200000 =
      \<lparr>available = False, reason = Some ''Need at least 48 hours advance notice''\<rparr>"
proof -
  let ?e = "demo_env\<lparr>now := 1767605400000\<rparr>"
  let ?e4 = "demo_env\<lparr>now := 1767483000000\<rparr>"
  let ?st4 = "demo_settings\<lparr>minAdvanceHours := 48, maxAdvanceDays := 1\<rparr>"
  let ?d4 = "demo_db_policy\<lparr>bookingSettingsTable := [?st4]\<rparr>"
  have c1: "conflictingLesson demo_db ''t1'' 1767612600000 1767616200000 = None"
    by code_simp
  have b1: "findBlockedTime demo_db ''t1'' 1767612600000 1767616200000 = None"
    by code_simp
  have a1: "findAvailability ?e demo_db ''t1'' 1767612600000 1767616200000 = Some demo_rule"
    by code_simp
  have s1: "findSettings demo_db ''t1'' = None"
    by code_simp
  have c2: "conflictingLesson demo_db_policy ''t1'' 1767612600000 1767616200000 = None"
    by code_simp
  have b2: "findBlockedTime demo_db_policy ''t1'' 1767612600000 1767616200000 = None"
    by code_simp
  have a2: "findAvailability ?e demo_db_policy ''t1'' 1767612600000 1767616200000
            = Some demo_rule"
    by code_simp
  have s2: "findSettings demo_db_policy ''t1'' = Some demo_settings"
    by code_simp
  have c3: "conflictingLesson demo_db_policy ''t1'' 1776070800000 1776074400000 = None"
    by code_simp
  have b3: "findBlockedTime demo_db_policy ''t1'' 1776070800000 1776074400000 = None"
    by code_simp
  have a3: "findAvailability demo_env demo_db_policy ''t1'' 1776070800000 1776074400000
            = Some demo_rule"
    by code_simp
  have c4: "conflictingLesson ?d4 ''t1'' 1767612600000 1767616200000 = None"
    by code_simp
  have b4: "findBlockedTime ?d4 ''t1'' 1767612600000 1767616200000 = None"
    by code_simp
  have a4: "findAvailability ?e4 ?d4 ''t1'' 1767612600000 1767616200000 = Some demo_rule"
    by code_simp
  have s4: "findSettings ?d4 ''t1'' = Some ?st4"
    by code_simp
  have n24: "show_int (minAdvanceHours demo_settings) = ''24''"
    by code_simp
  have n90: "show_int (maxAdvanceDays demo_settings) = ''90''"
    by code_simp
  have n48: "show_int (minAdvanceHours ?st4) = ''48''"
    by code_simp
  have near: "1767612600000 - now ?e < minAdvanceHours demo_settings * 3600000"
    by (simp add: demo_env_def demo_settings_def)
  have far: "\<not> 1776070800000 - now demo_env < minAdvanceHours demo_settings * 3600000"
    "maxAdvanceDays demo_settings * 86400000 < 1776070800000 - now demo_env"
    by (simp_all add: demo_env_def demo_settings_def)
  have near4: "1767612600000 - now ?e4 < minAdvanceHours ?st4 * 3600000"
    by simp
  have far4: "1 * 86400000 < 1767612600000 - now ?e4"
    by simp
  from policy_only_with_settings[OF c1 b1 a1] s1
  have r1: "isTeacherAvailable ?e demo_db ''t1'' 1767612600000 1767616200000
            = \<lparr>available = True, reason = None\<rparr>"
    by blast
  from policy_only_with_settings[OF c2 b2 a2] s2 near
  have r2: "isTeacherAvailable ?e demo_db_policy ''t1'' 1767612600000 1767616200000 =
      \<lparr>available = False, reason = Some (''Need at least '' @ show_int (minAdvanceHours demo_settings)
                               @ '' hours advance notice'')\<rparr>"
    by blast
  from policy_only_with_settings[OF c3 b3 a3] s2 far
  have r3: "isTeacherAvailable demo_env demo_db_policy ''t1'' 1776070800000 1776074400000 =
      \<lparr>available = False, reason = Some (''Can only book up to '' @ show_int (maxAdvanceDays demo_settings)
                               @ '' days in advance'')\<rparr>"
    by blast
  from policy_only_with_settings[OF c4 b4 a4] s4 near4
  have r4: "isTeacherAvailable ?e4 ?d4 ''t1'' 1767612600000 1767616200000 =
      \<lparr>available = False, reason = Some (''Need at least '' @ show_int (minAdvanceHours ?st4)
                               @ '' hours advance notice'')\<rparr>"
    by blast
  from r1 r2[unfolded n24] r3[unfolded n90] r4[unfolded n48] far4 show ?thesis
    by simp
qed

text \<open>
  The claim as stated fails: the teacher of \<open>demo_db\<close> has no settings row, the candidate
  intervals pass the first three checks, one starts two hours after now and the other 102 days
  after now, and both are reported available.
\<close>

theorem default_policy_counterexample:
  "findSettings demo_db ''t1'' = None
   \<and> conflictingLesson demo_db ''t1'' 1767612600000 1767616200000 = None
   \<and> findBlockedTime demo_db ''t1'' 1767612600000 1767616200000 = None
   \<and> findAvailability (demo_env\<lparr>now := 1767605400000\<rparr>) demo_db ''t1''
        1767612600000 1767616200000 = Some demo_rule
   \<and> 1767612600000 - now (demo_env\<lparr>now := 1767605400000\<rparr>) < 24 * 3600000
   \<and> isTeacherAvailable (demo_env\<lparr>now := 1767605400000\<rparr>) demo_db ''t1''
        1767612600000 1767616200000 = \<lparr>available = True, reason = None\<rparr>
   \<and> conflictingLesson demo_db ''t1'' 1776070800000 1776074400000 = None
   \<and> findBlockedTime demo_db ''t1'' 1776070800000 1776074400000 = None
   \<and> findAvailability demo_env demo_db ''t1'' 1776070800000 1776074400000 = Some demo_rule
   \<and> 90 * 86400000 < 1776070800000 - now demo_env
   \<and> isTeacherAvailable demo_env demo_db ''t1'' 1776070800000 1776074400000 =
        \<lparr>available = True, reason = None\<rparr>"
  by code_simp

section \<open>Time strings that are not well formed\<close>

lemma split_js_no_sep: "sep \<notin> set s \<Longrightarrow> split_js sep s = [s]"
  by (induction s) auto

lemma split_js_append: "sep \<notin> set a \<Longrightarrow> split_js sep (a @ sep # b) = a # split_js sep b"
  by (induction a) auto

lemma js_add_NaN_right: "js_add x NaN = NaN"
  by (cases x) auto

lemma is_digit_not_space: "is_digit c \<Longrightarrow> \<not> is_space c"
  by (auto simp: is_digit_def is_space_def)

lemma trim_js_digits: "all_digits ds \<Longrightarrow> trim_js ds = ds"
proof -
  assume a: "all_digits ds"
  then have ne: "ds \<noteq> []" and dg: "list_all is_digit ds" by (auto simp: all_digits_def)
  from ne dg have "is_digit (hd ds)" by (cases ds) auto
  then have 1: "dropWhile is_space ds = ds"
    using ne by (cases ds) (auto simp: is_digit_not_space)
  from ne dg have "is_digit (last ds)" by (auto simp: list_all_iff)
  then have "\<not> is_space (hd (rev ds))" using ne by (simp add: hd_rev is_digit_not_space)
  then have 2: "dropWhile is_space (rev ds) = rev ds"
    using ne by (cases "rev ds") auto
  show ?thesis by (simp add: trim_js_def 1 2)
qed

lemma digit_not_radix_prefix:
  "is_digit p \<Longrightarrow> p \<noteq> CHR ''x'' \<and> p \<noteq> CHR ''X'' \<and> p \<noteq> CHR ''o'' \<and> p \<noteq> CHR ''O''
     \<and> p \<noteq> CHR ''b'' \<and> p \<noteq> CHR ''B''"
  by (auto simp: is_digit_def)

lemma non_decimal_digits: "all_digits ds \<Longrightarrow> non_decimal ds = None"
proof (cases ds)
  case Nil
  then show ?thesis by (simp add: non_decimal_def)
next
  case (Cons z ps)
  assume a: "all_digits ds"
  show ?thesis
  proof (cases ps)
    case Nil
    with Cons show ?thesis by (simp add: non_decimal_def)
  next
    case (Cons p rest)
    with a \<open>ds = z # ps\<close> have "is_digit p" by (simp add: all_digits_def)
    from digit_not_radix_prefix[OF this] Cons \<open>ds = z # ps\<close> show ?thesis
      by (simp add: non_decimal_def)
  qed
qed

lemma Number_js_digits: "all_digits ds \<Longrightarrow> Number_js ds = safe_num (int (dec_value ds))"
proof -
  assume a: "all_digits ds"
  then have ne: "ds \<noteq> []" and "is_digit (hd ds)" by (cases ds; auto simp: all_digits_def)+
  then have "hd ds \<noteq> CHR ''+''" "hd ds \<noteq> CHR ''-''" by (auto simp: is_digit_def)
  with a ne show ?thesis
    by (simp add: Number_js_def trim_js_digits non_decimal_digits unsigned_decimal_def)
qed

lemma dec_value_snoc: "dec_value (ds @ [c]) = 10 * dec_value ds + digit_val c"
  by (simp add: dec_value_def)

lemma dec_value_bound: "list_all is_digit ds \<Longrightarrow> dec_value ds < 10 ^ length ds"
proof (induction ds rule: rev_induct)
  case Nil
  then show ?case by (simp add: dec_value_def)
next
  case (snoc c ds)
  then have "dec_value ds < 10 ^ length ds" and "digit_val c \<le> 9"
    by (auto simp: is_digit_def digit_val_def)
  then show ?case by (simp add: dec_value_snoc)
qed

lemma dec_value_bound14:
  assumes "all_digits ds" "length ds \<le> 14"
  shows "int (dec_value ds) < 100000000000000"
proof -
  from assms have "dec_value ds < 10 ^ length ds" by (simp add: dec_value_bound all_digits_def)
  also have "\<dots> \<le> (10::nat) ^ 14" using assms(2) by (intro power_increasing) auto
  finally show ?thesis by simp
qed

lemma all_digits_no_colon: "all_digits ds \<Longrightarrow> CHR '':'' \<notin> set ds"
  by (auto simp: all_digits_def list_all_iff is_digit_def)

text \<open>
  C8 (as amended).  \<open>timeToMinutes\<close> does not validate its argument and has no error result.
  A string without a colon gives \<open>NaN\<close>.  A string whose first two colon-separated fields
  \<open>h\<close> and \<open>m\<close> are decimal digit strings (of at most 14 digits) gives the number
  \<open>60 * h + m\<close>, whatever the width and range of the two fields, and whatever follows a
  further colon.
\<close>

theorem timeToMinutes_no_validation:
  "(CHR '':'' \<notin> set s \<longrightarrow> timeToMinutes s = NaN)
   \<and> (all_digits h \<and> all_digits m \<and> length h \<le> 14 \<and> length m \<le> 14
        \<and> (rest = [] \<or> hd rest = CHR '':'')
      \<longrightarrow> timeToMinutes (h @ '':'' @ m @ rest) = Num (int (dec_value h) * 60 + int (dec_value m)))"
proof (intro conjI impI)
  assume "CHR '':'' \<notin> set s"
  then show "timeToMinutes s = NaN"
    by (simp add: timeToMinutes_def split_js_no_sep elem_or_undefined_def js_add_NaN_right)
next
  assume a: "all_digits h \<and> all_digits m \<and> length h \<le> 14 \<and> length m \<le> 14
        \<and> (rest = [] \<or> hd rest = CHR '':'')"
  then have h: "all_digits h" and m: "all_digits m"
    and lh: "length h \<le> 14" and lm: "length m \<le> 14" by auto
  have "\<exists>ps. split_js CHR '':'' (m @ rest) = m # ps"
  proof (cases rest)
    case Nil
    then show ?thesis using all_digits_no_colon[OF m] by (simp add: split_js_no_sep)
  next
    case (Cons c r)
    with a have "c = CHR '':''" by simp
    with Cons show ?thesis using all_digits_no_colon[OF m] by (simp add: split_js_append)
  qed
  then obtain ps where ps: "split_js CHR '':'' (m @ rest) = m # ps" by blast
  have sp: "split_js CHR '':'' (h @ '':'' @ m @ rest) = h # m # ps"
    using all_digits_no_colon[OF h] ps by (simp add: split_js_append)
  have bh: "int (dec_value h) < 100000000000000" using h lh by (rule dec_value_bound14)
  have bm: "int (dec_value m) < 100000000000000" using m lm by (rule dec_value_bound14)
  show "timeToMinutes (h @ '':'' @ m @ rest) = Num (int (dec_value h) * 60 + int (dec_value m))"
    unfolding timeToMinutes_def sp using bh bm
    by (simp add: elem_or_undefined_def Number_js_digits h m safe_num_def)
qed

theorem timeToMinutes_no_validation_witness:
  "CHR '':'' \<notin> set ''abc'' \<and> timeToMinutes ''abc'' = NaN
   \<and> all_digits ''14'' \<and> all_digits ''30'' \<and> timeToMinutes ''14:30:45'' = Num 870"
proof -
  have 1: "CHR '':'' \<notin> set ''abc''" by simp
  have 2: "all_digits ''14'' \<and> all_digits ''30'' \<and> length ''14'' \<le> 14 \<and> length ''30'' \<le> 14
        \<and> ('':45'' = [] \<or> hd '':45'' = CHR '':'')"
    by (simp add: all_digits_def is_digit_def)
  have 3: "int (dec_value ''14'') * 60 + int (dec_value ''30'') = 870"
    by (simp add: dec_value_def digit_val_def)
  from timeToMinutes_no_validation[of "''abc''" "''14''" "''30''" "'':45''"] 1 2 3
  show ?thesis by simp
qed

text \<open>
  The claim as stated fails: these strings are not of the form \<open>HH:MM\<close>, and each gives a
  number value, not an error.
\<close>

theorem timeToMinutes_counterexample:
  "\<not> valid_hhmm ''14:30:45'' \<and> timeToMinutes ''14:30:45'' = Num 870
   \<and> \<not> valid_hhmm ''9:5'' \<and> timeToMinutes ''9:5'' = Num 545
   \<and> \<not> valid_hhmm ''abc'' \<and> timeToMinutes ''abc'' = NaN"
  by code_simp

section \<open>Booking validation: accumulated errors\<close>

lemma past_start_unavailable:
  assumes "findSettings d teacherId = Some st" "0 \<le> minAdvanceHours st" "startTime < now e"
  shows "\<not> available (isTeacherAvailable e d teacherId startTime endTime)"
proof -
  have "startTime - now e < minAdvanceHours st * 3600000"
  proof -
    have "startTime - now e < 0" using assms(3) by simp
    also have "0 \<le> minAdvanceHours st * 3600000" using assms(2) by simp
    finally show ?thesis .
  qed
  then show ?thesis using assms(1)
    by (simp add: isTeacherAvailable_def Let_def hours_less_iff split: option.splits)
qed

lemma join_durations: "join_ints [30, 60, 90, 120] = ''30, 60, 90, 120''"
  by code_simp

text \<open>
  C4 (as amended).  \<open>validateBooking\<close> collects the messages of its four checks in order,
  without stopping at the first, and \<open>valid\<close> is true exactly when the list is empty.  For a
  teacher whose settings row allows the durations 30, 60, 90 and 120 (and asks for a
  non-negative advance notice), booking a past instant for 45 minutes gives at least three
  messages: "Cannot book lessons in the past", then the reason the availability check gives
  (a past start is never available), then the allowed-durations message; the business-hours
  message follows when the hour is below 6.
\<close>

theorem validateBooking_accumulates:
  "valid (validateBooking e d teacherId startTime duration)
     = (errors (validateBooking e d teacherId startTime duration) = [])
   \<and> errors (validateBooking e d teacherId startTime duration)
     = pastErrors e startTime @ availabilityErrors e d teacherId startTime duration
       @ durationErrors d teacherId duration @ hourErrors e startTime
   \<and> (findSettings d teacherId = Some st \<and> allowedDurations st = [30, 60, 90, 120]
        \<and> 0 \<le> minAdvanceHours st \<and> startTime < now e \<longrightarrow>
        \<not> available (isTeacherAvailable e d teacherId startTime (startTime + 45 * 60000))
        \<and> errors (validateBooking e d teacherId startTime 45)
          = [''Cannot book lessons in the past'',
             or_else (reason (isTeacherAvailable e d teacherId startTime (startTime + 45 * 60000)))
               ''Teacher not available'',
             ''Duration must be one of: 30, 60, 90, 120 minutes'']
            @ hourErrors e startTime)"
proof (intro conjI impI)
  show "valid (validateBooking e d teacherId startTime duration)
     = (errors (validateBooking e d teacherId startTime duration) = [])"
    by (simp add: validateBooking_def Let_def)
  show "errors (validateBooking e d teacherId startTime duration)
     = pastErrors e startTime @ availabilityErrors e d teacherId startTime duration
       @ durationErrors d teacherId duration @ hourErrors e startTime"
    by (simp add: validateBooking_def Let_def)
next
  assume a: "findSettings d teacherId = Some st \<and> allowedDurations st = [30, 60, 90, 120]
        \<and> 0 \<le> minAdvanceHours st \<and> startTime < now e"
  then show u: "\<not> available (isTeacherAvailable e d teacherId startTime (startTime + 45 * 60000))"
    using past_start_unavailable by blast
  have p: "pastErrors e startTime = [''Cannot book lessons in the past'']"
    using a by (simp add: pastErrors_def)
  have v: "availabilityErrors e d teacherId startTime 45 =
     [or_else (reason (isTeacherAvailable e d teacherId startTime (startTime + 45 * 60000)))
               ''Teacher not available'']"
    using u by (simp add: availabilityErrors_def Let_def)
  have du: "durationErrors d teacherId 45 = [''Duration must be one of: 30, 60, 90, 120 minutes'']"
  proof -
    from a have al: "allowedDurations st = [30, 60, 90, 120]" by simp
    have j: "join_ints (allowedDurations st) = ''30, 60, 90, 120''"
      unfolding al by (rule join_durations)
    have n: "(45::int) \<notin> set (allowedDurations st)" unfolding al by simp
    from a have fs: "findSettings d teacherId = Some st" by simp
    from fs n show ?thesis by (simp add: durationErrors_def j)
  qed
  show "errors (validateBooking e d teacherId startTime 45)
          = [''Cannot book lessons in the past'',
             or_else (reason (isTeacherAvailable e d teacherId startTime (startTime + 45 * 60000)))
               ''Teacher not available'',
             ''Duration must be one of: 30, 60, 90, 120 minutes'']
            @ hourErrors e startTime"
    by (simp add: validateBooking_def Let_def p v du)
qed

theorem validateBooking_accumulates_witness:
  "findSettings demo_db_policy ''t1'' = Some demo_settings
   \<and> allowedDurations demo_settings = [30, 60, 90, 120]
   \<and> 0 \<le> minAdvanceHours demo_settings
   \<and> 1767610800000 < now (demo_env\<lparr>now := 1767614400000\<rparr>)
   \<and> errors (validateBooking (demo_env\<lparr>now := 1767614400000\<rparr>) demo_db_policy ''t1'' 1767610800000 45)
      = [''Cannot book lessons in the past'', ''Need at least 24 hours advance notice'',
         ''Duration must be one of: 30, 60, 90, 120 minutes'']"
proof -
  let ?e = "demo_env\<lparr>now := 1767614400000\<rparr>"
  have s: "findSettings demo_db_policy ''t1'' = Some demo_settings" by code_simp
  have al: "allowedDurations demo_settings = [30, 60, 90, 120]" by (simp add: demo_settings_def)
  have mn: "0 \<le> minAdvanceHours demo_settings" by (simp add: demo_settings_def)
  have ps: "1767610800000 < now ?e" by simp
  have r: "or_else (reason (isTeacherAvailable ?e demo_db_policy ''t1'' 1767610800000 (1767610800000 + 45 * 60000)))
               ''Teacher not available'' = ''Need at least 24 hours advance notice''"
    by code_simp
  have h: "hourErrors ?e 1767610800000 = []" by code_simp
  from validateBooking_accumulates[of ?e demo_db_policy "''t1''" 1767610800000 45 demo_settings] s al mn ps
  have "errors (validateBooking ?e demo_db_policy ''t1'' 1767610800000 45)
          = [''Cannot book lessons in the past'',
             or_else (reason (isTeacherAvailable ?e demo_db_policy ''t1'' 1767610800000 (1767610800000 + 45 * 60000)))
               ''Teacher not available'',
             ''Duration must be one of: 30, 60, 90, 120 minutes'']
            @ hourErrors ?e 1767610800000" by blast
  then show ?thesis using s al mn ps unfolding r h by simp
qed

text \<open>
  The claim as stated fails: on the demo schedule at Monday 12:00, booking 11:00 of the same
  day for 45 minutes gives three messages, not two.
\<close>

theorem two_errors_counterexample:
  "1767610800000 < now (demo_env\<lparr>now := 1767614400000\<rparr>)
   \<and> map_option allowedDurations (findSettings demo_db_policy ''t1'') = Some [30, 60, 90, 120]
   \<and> validateBooking (demo_env\<lparr>now := 1767614400000\<rparr>) demo_db_policy ''t1'' 1767610800000 45
      = \<lparr>valid = False, errors = [''Cannot book lessons in the past'', ''Need at least 24 hours advance notice'',
         ''Duration must be one of: 30, 60, 90, 120 minutes'']\<rparr>
   \<and> length (errors (validateBooking (demo_env\<lparr>now := 1767614400000\<rparr>) demo_db_policy ''t1'' 1767610800000 45)) = 3"
  by code_simp


section \<open>Generated slots\<close>

lemma slotLoop_verdict:
  assumes run: "slotLoop e d teacherId currentDate duration slotInterval endMinutes slots minutes = Some r"
    and inv: "verdict_kept e d teacherId slots"
  shows "verdict_kept e d teacherId r"
proof -
  have "verdict_kept e d teacherId slots \<longrightarrow> verdict_kept e d teacherId r"
  proof (rule slotLoop.raw_induct[where P = "\<lambda>e d teacherId currentDate duration slotInterval
        endMinutes slots minutes r. verdict_kept e d teacherId slots \<longrightarrow> verdict_kept e d teacherId r",
        OF _ run], goal_cases)
    case (1 f e d teacherId currentDate duration slotInterval endMinutes slots minutes r)
    note IH = 1(1) and step = 1(2)
    show ?case
    proof (cases "minutes + duration \<le> endMinutes")
      case False
      with step show ?thesis by simp
    next
      case True
      define slotStart where
        "slotStart = setHours e currentDate (minutes div 60) (js_rem minutes 60) 0 0"
      define slotEnd where
        "slotEnd = setMinutes e slotStart (getMinutes e slotStart + duration)"
      show ?thesis
      proof (cases "slotStart < now e")
        case past: True
        with True step
        have "f e d teacherId currentDate duration slotInterval endMinutes slots
                (minutes + slotInterval) = Some r"
          by (simp add: Let_def slotStart_def)
        from IH[OF this] show ?thesis .
      next
        case future: False
        define sl where
          "sl = \<lparr>slot_startTime = slotStart, slot_endTime = slotEnd,
                 slot_available = available (isTeacherAvailable e d teacherId slotStart slotEnd)\<rparr>"
        from future True step
        have "f e d teacherId currentDate duration slotInterval endMinutes
                (slots @ [sl]) (minutes + slotInterval) = Some r"
          by (simp add: Let_def slotStart_def slotEnd_def sl_def)
        from IH[OF this]
        have "verdict_kept e d teacherId (slots @ [sl]) \<longrightarrow> verdict_kept e d teacherId r" .
        moreover have "verdict_kept e d teacherId slots \<Longrightarrow> verdict_kept e d teacherId (slots @ [sl])"
          by (simp add: verdict_kept_def sl_def)
        ultimately show ?thesis by blast
      qed
    qed
  qed
  with inv show ?thesis by blast
qed

lemma daySlots_verdict:
  "daySlots e d teacherId currentDate duration slotInterval a slots = Returns r \<Longrightarrow>
   verdict_kept e d teacherId slots \<Longrightarrow> verdict_kept e d teacherId r"
  unfolding daySlots_def Let_def
  by (auto split: jsnum.splits option.splits dest: slotLoop_verdict)

lemma dayLoop_verdict:
  "dayLoop e d teacherId avs endDate duration slotInterval slots currentDate = Returns r \<Longrightarrow>
   verdict_kept e d teacherId slots \<Longrightarrow> verdict_kept e d teacherId r"
proof (induction e d teacherId avs endDate duration slotInterval slots currentDate
    rule: dayLoop.induct)
  case (1 e d teacherId availabilities endDate duration slotInterval slots currentDate)
  show ?case
  proof (cases "currentDate \<le> endDate")
    case False
    with 1(3,4) show ?thesis by (simp add: dayLoop.simps)
  next
    case le: True
    show ?thesis
    proof (cases "find (\<lambda>a. avail_dayOfWeek a = getDay e currentDate) availabilities")
      case None
      with le 1(3)
      have "dayLoop e d teacherId availabilities endDate duration slotInterval slots
              (nextDay currentDate) = Returns r"
        by (simp add: dayLoop.simps)
      from 1(1)[OF le None this 1(4)] show ?thesis .
    next
      case (Some a)
      show ?thesis
      proof (cases "daySlots e d teacherId currentDate duration slotInterval a slots")
        case (Returns slots')
        with le Some 1(3)
        have r: "dayLoop e d teacherId availabilities endDate duration slotInterval slots'
                   (nextDay currentDate) = Returns r"
          by (simp add: dayLoop.simps)
        from daySlots_verdict[OF Returns 1(4)] have "verdict_kept e d teacherId slots'" .
        from 1(2)[OF le Some Returns r this] show ?thesis .
      next
        case Diverges
        with le Some 1(3) show ?thesis by (simp add: dayLoop.simps)
      next
        case Unfollowed
        with le Some 1(3) show ?thesis by (simp add: dayLoop.simps)
      qed
    qed
  qed
qed

text \<open>
  C5 (as amended).  Every slot that \<open>generateTimeSlots\<close> returns has a start instant, an end
  instant and the \<open>available\<close> flag the availability check gives for that interval.  The
  reason of the check is not part of a slot.
\<close>

theorem slots_carry_available_only:
  assumes "generateTimeSlots e d teacherId startDate endDate duration = Returns slots"
  shows "\<forall>sl \<in> set slots.
           slot_available sl =
           available (isTeacherAvailable e d teacherId (slot_startTime sl) (slot_endTime sl))"
proof -
  have "verdict_kept e d teacherId slots"
  proof (cases "filter (\<lambda>a. avail_userId a = teacherId \<and> avail_isAvailable a)
                  (availabilityTable d) = []")
    case True
    with assms show ?thesis by (simp add: generateTimeSlots_def verdict_kept_def)
  next
    case False
    have "verdict_kept e d teacherId []" by (simp add: verdict_kept_def)
    with False assms show ?thesis
      by (auto simp: generateTimeSlots_def Let_def dest: dayLoop_verdict)
  qed
  then show ?thesis by (simp add: verdict_kept_def list_all_iff)
qed

theorem slots_carry_available_only_witness:
  "generateTimeSlots demo_env demo_db_lesson_hour ''t1'' 1767571200000 1767571200000 60
     = Returns [\<lparr>slot_startTime = 1767607200000, slot_endTime = 1767610800000,
                 slot_available = False\<rparr>]
   \<and> available (isTeacherAvailable demo_env demo_db_lesson_hour ''t1''
                  1767607200000 1767610800000) = False"
proof -
  have g: "generateTimeSlots demo_env demo_db_lesson_hour ''t1'' 1767571200000 1767571200000 60
     = Returns [\<lparr>slot_startTime = 1767607200000, slot_endTime = 1767610800000,
                 slot_available = False\<rparr>]"
    by code_simp
  from slots_carry_available_only[OF g] g show ?thesis by simp
qed

text \<open>
  The claim as stated fails: a slot has no reason field, and the reason cannot be read off
  the result.  The two schedules below give the same slot list, while the check gives two
  different reasons for the slot.
\<close>

theorem slot_reason_counterexample:
  "generateTimeSlots demo_env demo_db_lesson_hour ''t1'' 1767571200000 1767571200000 60
     = Returns [\<lparr>slot_startTime = 1767607200000, slot_endTime = 1767610800000,
                 slot_available = False\<rparr>]
   \<and> generateTimeSlots demo_env demo_db_blocked_hour ''t1'' 1767571200000 1767571200000 60
     = Returns [\<lparr>slot_startTime = 1767607200000, slot_endTime = 1767610800000,
                 slot_available = False\<rparr>]
   \<and> isTeacherAvailable demo_env demo_db_lesson_hour ''t1'' 1767607200000 1767610800000
     = \<lparr>available = False, reason = Some ''Teacher has another lesson at this time''\<rparr>
   \<and> isTeacherAvailable demo_env demo_db_blocked_hour ''t1'' 1767607200000 1767610800000
     = \<lparr>available = False, reason = Some ''Vacation''\<rparr>"
  by code_simp

text \<open>
  C3.  The claim asks for consecutive slot starts \<open>duration + bufferMinutes\<close> apart, also for
  a stored \<open>bufferMinutes\<close> of 0.  With the settings row of \<open>demo_db_zero_buffer\<close>
  (\<open>bufferMinutes = 0\<close>), a Monday rule from 09:00 to 12:00 and 60-minute lessons, the code
  returns the slots 09:00 and 10:15: the starts are 75 minutes apart, not 60.
\<close>

theorem zero_buffer_replaced_by_default:
  "map_option bufferMinutes (findSettings demo_db_zero_buffer ''t1'') = Some 0
   \<and> generateTimeSlots demo_env demo_db_zero_buffer ''t1'' 1767571200000 1767571200000 60
     = Returns [\<lparr>slot_startTime = 1767603600000, slot_endTime = 1767607200000,
                 slot_available = True\<rparr>,
                \<lparr>slot_startTime = 1767608100000, slot_endTime = 1767611700000,
                 slot_available = True\<rparr>]
   \<and> (1767608100000 - 1767603600000 :: int) = (60 + 15) * 60000
   \<and> (1767608100000 - 1767603600000 :: int) \<noteq> (60 + 0) * 60000"
  by code_simp


section \<open>Calendar export\<close>

subsection \<open>Years, months and days\<close>

lemma div_bounds: "(0::int) < k \<Longrightarrow> k * (a div k) \<le> a \<and> a < k * (a div k) + k"
proof -
  assume k: "0 < k"
  have "a = k * (a div k) + a mod k" by simp
  moreover have "0 \<le> a mod k" "a mod k < k" using k by simp_all
  ultimately show ?thesis by linarith
qed

lemma dayFromYear_lower: "dayFromYear (1970 + (d * 400) div 146097 - 1) \<le> d"
proof -
  define q where "q = (d * 400) div 146097"
  define A where "A = q div 4"
  define B where "B = (q + 68) div 100"
  define C where "C = (q + 368) div 400"
  have b0: "146097 * q \<le> d * 400" using div_bounds[of 146097 "d * 400"] by (simp add: q_def)
  have b1: "4 * A \<le> q" using div_bounds[of 4 q] by (simp add: A_def)
  have b2: "q + 68 < 100 * B + 100" using div_bounds[of 100 "q + 68"] by (simp add: B_def)
  have b3: "400 * C \<le> q + 368" using div_bounds[of 400 "q + 368"] by (simp add: C_def)
  have "dayFromYear (1970 + q - 1) = 365 * (q - 1) + A - B + C"
    by (simp add: dayFromYear_def A_def B_def C_def algebra_simps)
  with b0 b1 b2 b3 have "dayFromYear (1970 + q - 1) \<le> d" by simp
  then show ?thesis by (simp add: q_def)
qed

lemma dayFromYear_upper: "d < dayFromYear (1970 + (d * 400) div 146097 + 2)"
proof -
  define q where "q = (d * 400) div 146097"
  define A where "A = (q + 3) div 4"
  define B where "B = (q + 71) div 100"
  define C where "C = (q + 371) div 400"
  have b0: "d * 400 < 146097 * q + 146097" using div_bounds[of 146097 "d * 400"] by (simp add: q_def)
  have b1: "q + 3 < 4 * A + 4" using div_bounds[of 4 "q + 3"] by (simp add: A_def)
  have b2: "100 * B \<le> q + 71" using div_bounds[of 100 "q + 71"] by (simp add: B_def)
  have b3: "q + 371 < 400 * C + 400" using div_bounds[of 400 "q + 371"] by (simp add: C_def)
  have "dayFromYear (1970 + q + 2) = 365 * (q + 2) + A - B + C"
    by (simp add: dayFromYear_def A_def B_def C_def algebra_simps)
  with b0 b1 b2 b3 have "d < dayFromYear (1970 + q + 2)" by simp
  then show ?thesis by (simp add: q_def)
qed

lemma yearFromDay_correct:
  "dayFromYear (yearFromDay d) \<le> d \<and> d < dayFromYear (yearFromDay d + 1)"
  using dayFromYear_lower[of d] dayFromYear_upper[of d]
  by (auto simp: yearFromDay_def Let_def algebra_simps)

lemma div_step:
  assumes k: "(0::int) < k"
  shows "(a + 1) div k = a div k + (if (a + 1) mod k = 0 then 1 else 0)"
proof -
  define q where "q = a div k"
  define r where "r = a mod k"
  have a: "a = k * q + r" and r: "0 \<le> r" "r < k" using k by (simp_all add: q_def r_def)
  show ?thesis
  proof (cases "r = k - 1")
    case True
    then have e: "a + 1 = k * (q + 1) + 0" using a by (simp add: algebra_simps)
    have "(a + 1) div k = q + 1" using e k by (intro int_div_pos_eq[of _ _ _ 0]) auto
    moreover have "(a + 1) mod k = 0" using e k by (intro int_mod_pos_eq[of _ _ "q + 1"]) auto
    ultimately show ?thesis by (simp add: q_def)
  next
    case False
    then have r': "r + 1 < k" using r by simp
    have e: "a + 1 = k * q + (r + 1)" using a by simp
    have "(a + 1) div k = q" using e r r' by (intro int_div_pos_eq[of _ _ _ "r + 1"]) auto
    moreover have "(a + 1) mod k = r + 1" using e r r' by (intro int_mod_pos_eq[of _ _ q]) auto
    ultimately show ?thesis using r by (simp add: q_def)
  qed
qed

lemma leap_mods:
  "((y - 1968) mod 4 = 0) = (y mod 4 = (0::int))"
  "((y - 1900) mod 100 = 0) = (y mod 100 = (0::int))"
  "((y - 1600) mod 400 = 0) = (y mod 400 = (0::int))"
proof -
  have "(y + 4 * (- 492)) mod 4 = y mod 4" by (rule mod_mult_self2)
  then show "((y - 1968) mod 4 = 0) = (y mod 4 = (0::int))" by simp
  have "(y + 100 * (- 19)) mod 100 = y mod 100" by (rule mod_mult_self2)
  then show "((y - 1900) mod 100 = 0) = (y mod 100 = (0::int))" by simp
  have "(y + 400 * (- 4)) mod 400 = y mod 400" by (rule mod_mult_self2)
  then show "((y - 1600) mod 400 = 0) = (y mod 400 = (0::int))" by simp
qed

lemma leap_nesting:
  "(y::int) mod 400 = 0 \<Longrightarrow> y mod 100 = 0"
  "(y::int) mod 100 = 0 \<Longrightarrow> y mod 4 = 0"
proof -
  assume "y mod 400 = 0"
  then have "400 dvd y" by (simp add: mod_eq_0_iff_dvd)
  moreover have "(100::int) dvd 400" by simp
  ultimately have "100 dvd y" by (rule dvd_trans[rotated])
  then show "y mod 100 = 0" by (simp add: mod_eq_0_iff_dvd)
next
  assume "y mod 100 = 0"
  then have "100 dvd y" by (simp add: mod_eq_0_iff_dvd)
  moreover have "(4::int) dvd 100" by simp
  ultimately have "4 dvd y" by (rule dvd_trans[rotated])
  then show "y mod 4 = 0" by (simp add: mod_eq_0_iff_dvd)
qed

lemma year_length: "dayFromYear (y + 1) - dayFromYear y = (if inLeapYear y then 366 else 365)"
proof -
  have 1: "(y + 1 - 1969) div 4 = (y - 1969) div 4 + (if y mod 4 = 0 then 1 else 0)"
    using div_step[of 4 "y - 1969"] leap_mods(1)[of y] by (simp add: algebra_simps)
  have 2: "(y + 1 - 1901) div 100 = (y - 1901) div 100 + (if y mod 100 = 0 then 1 else 0)"
    using div_step[of 100 "y - 1901"] leap_mods(2)[of y] by (simp add: algebra_simps)
  have 3: "(y + 1 - 1601) div 400 = (y - 1601) div 400 + (if y mod 400 = 0 then 1 else 0)"
    using div_step[of 400 "y - 1601"] leap_mods(3)[of y] by (simp add: algebra_simps)
  have e: "dayFromYear (y + 1) - dayFromYear y =
           365 + (if y mod 4 = 0 then 1 else 0) - (if y mod 100 = 0 then 1 else 0)
               + (if y mod 400 = 0 then 1 else 0)"
    unfolding dayFromYear_def 1 2 3 by (simp add: algebra_simps)
  consider (a) "y mod 400 = 0" | (b) "y mod 400 \<noteq> 0" "y mod 100 = 0"
    | (c) "y mod 100 \<noteq> 0" "y mod 4 = 0" | (d) "y mod 4 \<noteq> 0"
    by blast
  then show ?thesis
  proof cases
    case a
    then have h: "y mod 100 = 0" by (rule leap_nesting(1))
    then have "y mod 4 = 0" by (rule leap_nesting(2))
    with a h e show ?thesis by (simp add: inLeapYear_def)
  next
    case b
    from b(2) have "y mod 4 = 0" by (rule leap_nesting(2))
    with b e show ?thesis by (simp add: inLeapYear_def)
  next
    case c
    from c(1) leap_nesting(1)[of y] have "y mod 400 \<noteq> 0" by auto
    with c e show ?thesis by (simp add: inLeapYear_def)
  next
    case d
    from d leap_nesting(2)[of y] have h: "y mod 100 \<noteq> 0" by auto
    from h leap_nesting(1)[of y] have "y mod 400 \<noteq> 0" by auto
    with d h e show ?thesis by (simp add: inLeapYear_def)
  qed
qed

lemma monthStart_values:
  "monthStart leap 0 = 0" "monthStart leap 1 = 31"
  "monthStart leap 2 = (if leap then 60 else 59)" "monthStart leap 3 = (if leap then 91 else 90)"
  "monthStart leap 4 = (if leap then 121 else 120)" "monthStart leap 5 = (if leap then 152 else 151)"
  "monthStart leap 6 = (if leap then 182 else 181)" "monthStart leap 7 = (if leap then 213 else 212)"
  "monthStart leap 8 = (if leap then 244 else 243)" "monthStart leap 9 = (if leap then 274 else 273)"
  "monthStart leap 10 = (if leap then 305 else 304)" "monthStart leap 11 = (if leap then 335 else 334)"
  by (simp_all add: monthStart_def)

lemma month_bounds:
  assumes "0 \<le> diy" "diy < (if leap then 366 else 365)"
  shows "0 \<le> monthFromDay leap diy \<and> monthFromDay leap diy \<le> 11
       \<and> monthStart leap (monthFromDay leap diy) \<le> diy
       \<and> diy - monthStart leap (monthFromDay leap diy) \<le> 30"
  using assms by (cases leap) (simp_all add: monthFromDay_def monthStart_values)

subsection \<open>Digit strings of padded numbers\<close>

lemma is_digit_digit_char: "k < 10 \<Longrightarrow> is_digit (digit_char k)"
proof -
  assume "k < 10"
  then have "k \<in> {0, 1, 2, 3, 4, 5, 6, 7, 8, 9}" by auto
  then show ?thesis by (elim insertE emptyE; simp add: digit_char_def is_digit_def)
qed

lemma digit_val_digit_char: "k < 10 \<Longrightarrow> digit_val (digit_char k) = k"
proof -
  assume "k < 10"
  then have "k \<in> {0, 1, 2, 3, 4, 5, 6, 7, 8, 9}" by auto
  then show ?thesis by (elim insertE emptyE; simp add: digit_char_def digit_val_def)
qed

lemma show_nat_digits: "list_all is_digit (show_nat n)"
proof (induction n rule: show_nat.induct)
  case (1 n)
  show ?case
  proof (cases "n < 10")
    case True
    then show ?thesis by (subst show_nat.simps) (simp add: is_digit_digit_char)
  next
    case False
    with 1 have "list_all is_digit (show_nat (n div 10))" by simp
    with False show ?thesis by (subst show_nat.simps) (simp add: is_digit_digit_char)
  qed
qed

lemma dec_value_show_nat: "dec_value (show_nat n) = n"
proof (induction n rule: show_nat.induct)
  case (1 n)
  show ?case
  proof (cases "n < 10")
    case True
    then show ?thesis by (subst show_nat.simps) (simp add: dec_value_def digit_val_digit_char)
  next
    case False
    with 1 have "dec_value (show_nat (n div 10)) = n div 10" by simp
    with False show ?thesis
      by (subst show_nat.simps) (simp add: dec_value_snoc digit_val_digit_char)
  qed
qed

lemma length_show_nat: "n < 10 ^ k \<Longrightarrow> 0 < k \<Longrightarrow> length (show_nat n) \<le> k"
proof (induction n arbitrary: k rule: show_nat.induct)
  case (1 n)
  show ?case
  proof (cases "n < 10")
    case True
    with 1(3) show ?thesis by (subst show_nat.simps) simp
  next
    case False
    obtain j where k: "k = Suc j" using 1(3) by (cases k) auto
    from False 1(2) k have j: "0 < j" by (cases j) auto
    from 1(2) k have "n div 10 < 10 ^ j" by (simp add: less_mult_imp_div_less mult.commute)
    from 1(1)[OF False this j] have "length (show_nat (n div 10)) \<le> j" .
    with False k show ?thesis by (subst show_nat.simps) simp
  qed
qed

lemma dec_value_zeros: "dec_value (replicate k CHR ''0'' @ s) = dec_value s"
proof -
  have "foldl (\<lambda>a c. 10 * a + digit_val c) 0 (replicate k CHR ''0'') = 0"
    by (induction k) (simp_all add: digit_val_def)
  then show ?thesis by (simp add: dec_value_def)
qed

lemma pad_int_props:
  assumes "0 \<le> v" "v < 10 ^ n" "0 < n"
  shows "length (pad_int n v) = n" "list_all is_digit (pad_int n v)"
    "int (dec_value (pad_int n v)) = v"
proof -
  have l: "length (show_nat (nat v)) \<le> n"
    using assms by (intro length_show_nat) (auto simp: nat_less_iff)
  have z: "is_digit CHR ''0''" by (simp add: is_digit_def)
  from assms(1) have p: "pad_int n v = replicate (n - length (show_nat (nat v))) CHR ''0'' @ show_nat (nat v)"
    by (simp add: pad_int_def padStart_def show_int_def)
  from l show "length (pad_int n v) = n" unfolding p by simp
  show "list_all is_digit (pad_int n v)" unfolding p
    using show_nat_digits[of "nat v"] z by (auto simp: list_all_iff)
  show "int (dec_value (pad_int n v)) = v" unfolding p using assms(1)
    by (simp add: dec_value_zeros dec_value_show_nat)
qed

subsection \<open>Time of day\<close>

lemma seconds_of_day:
  fixes t :: int
  defines "tod \<equiv> t mod 86400000"
  shows "t div 1000 = (t div 86400000) * 86400 + (tod div 3600000) * 3600
                      + (tod div 60000 mod 60) * 60 + (tod div 1000 mod 60)"
proof -
  define u where "u = t div 1000"
  define w where "w = u mod 86400"
  have d: "t div 86400000 = u div 86400"
    using zdiv_zmult2_eq[of 86400 t 1000] by (simp add: u_def)
  have m: "tod = 1000 * w + t mod 1000"
    using zmod_zmult2_eq[of 86400 t 1000] by (simp add: tod_def w_def u_def)
  have r: "0 \<le> t mod 1000" "t mod 1000 < 1000" by simp_all
  have s: "tod div 1000 = w"
    unfolding m using r by (intro int_div_pos_eq[of _ _ _ "t mod 1000"]) auto
  have mi: "tod div 60000 = w div 60"
    using zdiv_zmult2_eq[of 60 tod 1000] s by simp
  have h: "tod div 3600000 = w div 3600"
    using zdiv_zmult2_eq[of 3600 tod 1000] s by simp
  have h2: "w div 3600 = w div 60 div 60"
    using zdiv_zmult2_eq[of 60 w 60] by simp
  have 1: "w = 60 * (w div 60) + w mod 60" by simp
  have 2: "w div 60 = 60 * (w div 60 div 60) + w div 60 mod 60" by simp
  have 3: "u = 86400 * (u div 86400) + w" by (simp add: w_def)
  have "u = (u div 86400) * 86400 + (w div 3600) * 3600 + (w div 60 mod 60) * 60 + w mod 60"
    using 1 2 3 unfolding h2 by linarith
  then show ?thesis unfolding d s mi h u_def by simp
qed

lemma time_fields_range:
  fixes t :: int
  defines "tod \<equiv> t mod 86400000"
  shows "0 \<le> tod div 3600000" "tod div 3600000 < 10 ^ 2"
    "0 \<le> tod div 60000 mod 60" "tod div 60000 mod 60 < 10 ^ 2"
    "0 \<le> tod div 1000 mod 60" "tod div 1000 mod 60 < 10 ^ 2"
proof -
  have r: "0 \<le> tod" "tod < 86400000" by (simp_all add: tod_def)
  show "0 \<le> tod div 3600000" using r by simp
  from r have "tod div 3600000 < 24" by simp
  then show "tod div 3600000 < 10 ^ 2" by simp
  show "0 \<le> tod div 60000 mod 60" by simp
  have "tod div 60000 mod 60 < 60" by simp
  then show "tod div 60000 mod 60 < 10 ^ 2" by simp
  show "0 \<le> tod div 1000 mod 60" by simp
  have "tod div 1000 mod 60 < 60" by simp
  then show "tod div 1000 mod 60 < 10 ^ 2" by simp
qed

subsection \<open>The stamp written by formatDate and its decoding\<close>

lemma filter_digits:
  "list_all is_digit xs \<Longrightarrow> filter (\<lambda>c. c \<noteq> CHR ''-'' \<and> c \<noteq> CHR '':'') xs = xs"
  by (induction xs) (auto simp: is_digit_def)

lemma digits_no_dot: "list_all is_digit xs \<Longrightarrow> CHR ''.'' \<notin> set xs"
  by (auto simp: list_all_iff is_digit_def)

lemma day_in_year_range:
  "0 \<le> d - dayFromYear (yearFromDay d)
   \<and> d - dayFromYear (yearFromDay d) < (if inLeapYear (yearFromDay d) then 366 else 365)"
  using yearFromDay_correct[of d] year_length[of "yearFromDay d"] by (simp split: if_splits)

lemma formatDate_shape:
  fixes t :: int
  defines "day \<equiv> t div msPerDay"
  defines "tod \<equiv> t mod msPerDay"
  defines "y \<equiv> yearFromDay day"
  defines "diy \<equiv> day - dayFromYear y"
  defines "m \<equiv> monthFromDay (inLeapYear y) diy"
  defines "dt \<equiv> diy - monthStart (inLeapYear y) m + 1"
  assumes yr: "0 \<le> y" "y \<le> 9999"
  shows "formatDate t = pad_int 4 y @ pad_int 2 (m + 1) @ pad_int 2 dt @ ''T''
           @ pad_int 2 (tod div 3600000) @ pad_int 2 (tod div 60000 mod 60)
           @ pad_int 2 (tod div 1000 mod 60) @ ''Z''"
    and "length (pad_int 4 y) = 4 \<and> length (pad_int 2 (m + 1)) = 2 \<and> length (pad_int 2 dt) = 2
       \<and> length (pad_int 2 (tod div 3600000)) = 2 \<and> length (pad_int 2 (tod div 60000 mod 60)) = 2
       \<and> length (pad_int 2 (tod div 1000 mod 60)) = 2"
    and "list_all is_digit (pad_int 4 y) \<and> list_all is_digit (pad_int 2 (m + 1))
       \<and> list_all is_digit (pad_int 2 dt)
       \<and> list_all is_digit (pad_int 2 (tod div 3600000))
       \<and> list_all is_digit (pad_int 2 (tod div 60000 mod 60))
       \<and> list_all is_digit (pad_int 2 (tod div 1000 mod 60))"
    and "int (dec_value (pad_int 4 y)) = y \<and> int (dec_value (pad_int 2 (m + 1))) = m + 1
       \<and> int (dec_value (pad_int 2 dt)) = dt
       \<and> int (dec_value (pad_int 2 (tod div 3600000))) = tod div 3600000
       \<and> int (dec_value (pad_int 2 (tod div 60000 mod 60))) = tod div 60000 mod 60
       \<and> int (dec_value (pad_int 2 (tod div 1000 mod 60))) = tod div 1000 mod 60"
proof -
  have diy: "0 \<le> diy" "diy < (if inLeapYear y then 366 else 365)"
    using day_in_year_range[of day] by (simp_all add: diy_def y_def)
  note mb = month_bounds[OF diy, folded m_def]
  have ry: "0 \<le> y" "y < 10 ^ 4" using yr by simp_all
  have rm: "0 \<le> m + 1" "m + 1 < 10 ^ 2" using mb by simp_all
  have rd: "0 \<le> dt" "dt < 10 ^ 2" using mb by (simp_all add: dt_def)
  note rt = time_fields_range[of t, folded msPerDay_def, folded tod_def]
  note Y = pad_int_props[OF ry] and M = pad_int_props[OF rm] and D = pad_int_props[OF rd]
    and H = pad_int_props[OF rt(1,2)] and Mi = pad_int_props[OF rt(3,4)]
    and S = pad_int_props[OF rt(5,6)]
  show L: "length (pad_int 4 y) = 4 \<and> length (pad_int 2 (m + 1)) = 2 \<and> length (pad_int 2 dt) = 2
       \<and> length (pad_int 2 (tod div 3600000)) = 2 \<and> length (pad_int 2 (tod div 60000 mod 60)) = 2
       \<and> length (pad_int 2 (tod div 1000 mod 60)) = 2"
    using Y(1) M(1) D(1) H(1) Mi(1) S(1) by simp
  show G: "list_all is_digit (pad_int 4 y) \<and> list_all is_digit (pad_int 2 (m + 1))
       \<and> list_all is_digit (pad_int 2 dt)
       \<and> list_all is_digit (pad_int 2 (tod div 3600000))
       \<and> list_all is_digit (pad_int 2 (tod div 60000 mod 60))
       \<and> list_all is_digit (pad_int 2 (tod div 1000 mod 60))"
    using Y(2) M(2) D(2) H(2) Mi(2) S(2) by simp
  show "int (dec_value (pad_int 4 y)) = y \<and> int (dec_value (pad_int 2 (m + 1))) = m + 1
       \<and> int (dec_value (pad_int 2 dt)) = dt
       \<and> int (dec_value (pad_int 2 (tod div 3600000))) = tod div 3600000
       \<and> int (dec_value (pad_int 2 (tod div 60000 mod 60))) = tod div 60000 mod 60
       \<and> int (dec_value (pad_int 2 (tod div 1000 mod 60))) = tod div 1000 mod 60"
    using Y(3) M(3) D(3) H(3) Mi(3) S(3) by simp
  define P where "P = pad_int 4 y @ pad_int 2 (m + 1) @ pad_int 2 dt @ ''T''
           @ pad_int 2 (tod div 3600000) @ pad_int 2 (tod div 60000 mod 60)
           @ pad_int 2 (tod div 1000 mod 60)"
  define R where "R = filter (\<lambda>c. c \<noteq> CHR ''-'' \<and> c \<noteq> CHR '':'') (pad_int 3 (tod mod 1000)) @ ''Z''"
  have iso: "toISOString t = pad_int 4 y @ ''-'' @ pad_int 2 (m + 1) @ ''-'' @ pad_int 2 dt @ ''T''
         @ pad_int 2 (tod div 3600000) @ '':''
         @ pad_int 2 (tod div 60000 mod 60) @ '':''
         @ pad_int 2 (tod div 1000 mod 60) @ ''.''
         @ pad_int 3 (tod mod 1000) @ ''Z''"
    using yr
    by (simp add: toISOString_def Let_def yearString_def day_def tod_def y_def diy_def m_def dt_def)
  have fl: "filter (\<lambda>c. c \<noteq> CHR ''-'' \<and> c \<noteq> CHR '':'') (toISOString t) = P @ CHR ''.'' # R"
    unfolding iso P_def R_def using G by (simp add: filter_digits)
  have nd: "CHR ''.'' \<notin> set P"
    unfolding P_def using G by (simp add: digits_no_dot)
  show "formatDate t = pad_int 4 y @ pad_int 2 (m + 1) @ pad_int 2 dt @ ''T''
           @ pad_int 2 (tod div 3600000) @ pad_int 2 (tod div 60000 mod 60)
           @ pad_int 2 (tod div 1000 mod 60) @ ''Z''"
    unfolding formatDate_def fl split_js_append[OF nd] by (simp add: P_def)
qed

lemma decode_fields:
  assumes len: "length Y = 4" "length M = 2" "length D = 2" "length H = 2" "length Mi = 2"
      "length S = 2"
    and dig: "list_all is_digit Y" "list_all is_digit M" "list_all is_digit D"
      "list_all is_digit H" "list_all is_digit Mi" "list_all is_digit S"
  shows "decodeStamp (Y @ M @ D @ ''T'' @ H @ Mi @ S @ ''Z'') =
         Some ((dayFromYear (int (dec_value Y))
                + monthStart (inLeapYear (int (dec_value Y))) (int (dec_value M) - 1)
                + (int (dec_value D) - 1)) * 86400
               + int (dec_value H) * 3600 + int (dec_value Mi) * 60 + int (dec_value S))"
proof -
  let ?s = "Y @ M @ D @ ''T'' @ H @ Mi @ S @ ''Z''"
  have l: "length ?s = 16" using len by simp
  have t8: "?s ! 8 = CHR ''T''" using len by (simp add: nth_append)
  have t15: "?s ! 15 = CHR ''Z''" using len by (simp add: nth_append)
  have p8: "take 8 ?s = Y @ M @ D" using len by simp
  have p6: "take 6 (drop 9 ?s) = H @ Mi @ S" using len by simp
  have f: "take 4 ?s = Y" "take 2 (drop 4 ?s) = M" "take 2 (drop 6 ?s) = D"
    "take 2 (drop 9 ?s) = H" "take 2 (drop 11 ?s) = Mi" "take 2 (drop 13 ?s) = S"
    using len by simp_all
  have c: "length ?s = 16 \<and> ?s ! 8 = CHR ''T'' \<and> ?s ! 15 = CHR ''Z''
         \<and> list_all is_digit (take 8 ?s) \<and> list_all is_digit (take 6 (drop 9 ?s))"
    unfolding p8 p6 using l t8 t15 dig by simp
  show ?thesis
    unfolding decodeStamp_def by (simp only: f Let_def c simp_thms if_True)
qed

lemma decodeStamp_formatDate:
  assumes yr: "0 \<le> yearFromDay (t div msPerDay)" "yearFromDay (t div msPerDay) \<le> 9999"
  shows "decodeStamp (formatDate t) = Some (t div 1000)"
proof -
  define day where "day = t div msPerDay"
  define tod where "tod = t mod msPerDay"
  define y where "y = yearFromDay day"
  define diy where "diy = day - dayFromYear y"
  define m where "m = monthFromDay (inLeapYear y) diy"
  define dt where "dt = diy - monthStart (inLeapYear y) m + 1"
  have yr': "0 \<le> yearFromDay (t div msPerDay)" "yearFromDay (t div msPerDay) \<le> 9999"
    using yr by simp_all
  note sh = formatDate_shape[OF yr', folded day_def tod_def, folded y_def, folded diy_def,
      folded m_def, folded dt_def]
  have v: "int (dec_value (pad_int 4 y)) = y" "int (dec_value (pad_int 2 (m + 1))) = m + 1"
    "int (dec_value (pad_int 2 dt)) = dt"
    "int (dec_value (pad_int 2 (tod div 3600000))) = tod div 3600000"
    "int (dec_value (pad_int 2 (tod div 60000 mod 60))) = tod div 60000 mod 60"
    "int (dec_value (pad_int 2 (tod div 1000 mod 60))) = tod div 1000 mod 60"
    using sh(4) by simp_all
  have "decodeStamp (formatDate t) =
        Some ((dayFromYear y + monthStart (inLeapYear y) (m + 1 - 1) + (dt - 1)) * 86400
              + tod div 3600000 * 3600 + tod div 60000 mod 60 * 60 + tod div 1000 mod 60)"
    unfolding sh(1) using sh(2) sh(3) by (subst decode_fields) (simp_all add: v)
  also have "(dayFromYear y + monthStart (inLeapYear y) (m + 1 - 1) + (dt - 1)) = day"
    by (simp add: dt_def diy_def)
  also have "day * 86400 + tod div 3600000 * 3600 + tod div 60000 mod 60 * 60 + tod div 1000 mod 60
             = t div 1000"
    using seconds_of_day[of t] by (simp add: day_def tod_def msPerDay_def)
  finally show ?thesis .
qed

subsection \<open>Lines of the exported text\<close>

lemma split_crlf_cons:
  "c \<noteq> CHR 0x0D \<Longrightarrow> ys \<noteq> [] \<Longrightarrow>
   split_crlf (c # ys) = (case split_crlf ys of p # ps \<Rightarrow> (c # p) # ps | [] \<Rightarrow> [[c]])"
  by (cases ys) auto

lemma split_crlf_line:
  "single_line x \<Longrightarrow> split_crlf (x @ CRLF @ rest) = x # split_crlf rest"
proof (induction x)
  case Nil
  then show ?case by (simp add: CRLF_def)
next
  case (Cons c x)
  then have c: "c \<noteq> CHR 0x0D" and x: "single_line x" by (auto simp: single_line_def)
  have ne: "x @ CRLF @ rest \<noteq> []" by (simp add: CRLF_def)
  show ?case using split_crlf_cons[OF c ne] Cons.IH[OF x] by simp
qed

lemma split_crlf_last: "single_line x \<Longrightarrow> split_crlf x = [x]"
proof (induction x)
  case Nil
  then show ?case by simp
next
  case (Cons c x)
  then have c: "c \<noteq> CHR 0x0D" and x: "single_line x" by (auto simp: single_line_def)
  show ?case
  proof (cases x)
    case Nil
    then show ?thesis by simp
  next
    case (Cons d ds)
    then have "x \<noteq> []" by simp
    from split_crlf_cons[OF c this] Cons.IH[OF x] show ?thesis by simp
  qed
qed

lemma split_crlf_join:
  "list_all single_line xs \<Longrightarrow> xs \<noteq> [] \<Longrightarrow> split_crlf (join_js CRLF xs) = xs"
proof (induction CRLF xs rule: join_js.induct)
  case 1
  then show ?case by simp
next
  case (2 x)
  then show ?case by (simp add: split_crlf_last)
next
  case (3 x y ys)
  then show ?case by (simp add: split_crlf_line)
qed

lemma hd_split_js_subset: "set (hd (split_js c s)) \<subseteq> set s"
proof (induction s)
  case Nil
  then show ?case by simp
next
  case (Cons x s)
  then show ?case by (cases "split_js c s") auto
qed

lemma show_nat_single_line: "single_line (show_nat n)"
  using show_nat_digits[of n] by (auto simp: single_line_def list_all_iff is_digit_def)

lemma pad_int_single_line: "single_line (pad_int n v)"
  using show_nat_single_line
  by (auto simp: pad_int_def padStart_def show_int_def single_line_def)

lemma toISOString_single_line: "single_line (toISOString t)"
  using pad_int_single_line
  by (auto simp: toISOString_def Let_def yearString_def single_line_def)

lemma formatDate_single_line: "single_line (formatDate t)"
proof -
  have "set (formatDate t) \<subseteq> set (toISOString t) \<union> {CHR ''Z''}"
    using hd_split_js_subset[of "CHR ''.''" "filter (\<lambda>c. c \<noteq> CHR ''-'' \<and> c \<noteq> CHR '':'') (toISOString t)"]
    by (auto simp: formatDate_def)
  then show ?thesis using toISOString_single_line[of t] by (auto simp: single_line_def)
qed

lemma eventLines_single_line:
  "single_line_fields l \<Longrightarrow> list_all single_line (eventLines e l)"
  using formatDate_single_line
  by (simp add: eventLines_def Let_def single_line_fields_def single_line_def)

lemma icalLines_single_line:
  "single_line_fields l \<Longrightarrow> list_all single_line (icalLines e [l])"
  using eventLines_single_line[of l e]
  by (simp add: icalLines_def single_line_def)

lemma property_DTSTART:
  "property_values ''DTSTART'' (icalLines e [l]) = [formatDate (cal_scheduledAt l)]"
  by (simp add: property_values_def icalLines_def eventLines_def Let_def)

lemma property_DTEND:
  "property_values ''DTEND'' (icalLines e [l]) =
   [formatDate (cal_scheduledAt l + cal_duration l * 60000)]"
  by (simp add: property_values_def icalLines_def eventLines_def Let_def)

lemma count_BEGIN: "count_list (icalLines e [l]) ''BEGIN:VEVENT'' = 1"
  by (simp add: icalLines_def eventLines_def Let_def)

lemma count_END: "count_list (icalLines e [l]) ''END:VEVENT'' = 1"
  by (simp add: icalLines_def eventLines_def Let_def)

subsection \<open>One lesson\<close>

lemma dayFromYear_mono: "a \<le> b \<Longrightarrow> dayFromYear a \<le> dayFromYear b"
proof -
  assume ab: "a \<le> b"
  define A4 where "A4 = (a - 1969) div 4"
  define B4 where "B4 = (b - 1969) div 4"
  define A1 where "A1 = (a - 1901) div 100"
  define B1 where "B1 = (b - 1901) div 100"
  define A0 where "A0 = (a - 1601) div 400"
  define B0 where "B0 = (b - 1601) div 400"
  have 4: "A4 \<le> B4" unfolding A4_def B4_def using ab by (intro zdiv_mono1) auto
  have 0: "A0 \<le> B0" unfolding A0_def B0_def using ab by (intro zdiv_mono1) auto
  have 1: "100 * B1 \<le> b - 1901" "a - 1901 < 100 * A1 + 100"
    using div_bounds[of 100 "b - 1901"] div_bounds[of 100 "a - 1901"]
    by (simp_all add: A1_def B1_def)
  have ea: "dayFromYear a = 365 * (a - 1970) + A4 - A1 + A0"
    by (simp add: dayFromYear_def A4_def A1_def A0_def)
  have eb: "dayFromYear b = 365 * (b - 1970) + B4 - B1 + B0"
    by (simp add: dayFromYear_def B4_def B1_def B0_def)
  show ?thesis unfolding ea eb using ab 4 0 1 by simp
qed

lemma dayFromYear_0: "dayFromYear 0 = - 719528"
  by (simp add: dayFromYear_def)

lemma dayFromYear_10000: "dayFromYear 10000 = 2932897"
  by (simp add: dayFromYear_def)

lemma year_in_range:
  assumes "four_digit_year t"
  shows "0 \<le> yearFromDay (t div msPerDay)" "yearFromDay (t div msPerDay) \<le> 9999"
proof -
  define d where "d = t div msPerDay"
  define y where "y = yearFromDay d"
  have b: "86400000 * d \<le> t" "t < 86400000 * d + 86400000"
    using div_bounds[of 86400000 t] by (simp_all add: d_def msPerDay_def)
  from assms have t: "- 62167219200000 \<le> t" "t < 253402300800000"
    by (simp_all add: four_digit_year_def)
  from b t have lo: "- 719528 \<le> d" by simp
  from b t have hi: "d < 2932897" by simp
  have c: "dayFromYear y \<le> d" "d < dayFromYear (y + 1)"
    using yearFromDay_correct[of d] by (simp_all add: y_def)
  have "0 \<le> y"
  proof (rule ccontr)
    assume "\<not> 0 \<le> y"
    then have "y + 1 \<le> 0" by simp
    from dayFromYear_mono[OF this] have "dayFromYear (y + 1) \<le> - 719528"
      by (simp add: dayFromYear_0)
    with c(2) lo show False by simp
  qed
  then show "0 \<le> yearFromDay (t div msPerDay)" by (simp add: y_def d_def)
  have "y \<le> 9999"
  proof (rule ccontr)
    assume "\<not> y \<le> 9999"
    then have "10000 \<le> y" by simp
    from dayFromYear_mono[OF this] have "2932897 \<le> dayFromYear y"
      by (simp add: dayFromYear_10000)
    with c(1) hi show False by simp
  qed
  then show "yearFromDay (t div msPerDay) \<le> 9999" by (simp add: y_def d_def)
qed

text \<open>
  Where the text fields (id, title, names and e-mail addresses) of the single lesson contain
  no carriage return, and its start and end lie in the years 0000 to 9999, the export is
  well formed: the text is the list of lines below joined with CRLF, it has exactly one
  \<open>BEGIN:VEVENT\<close> line and one \<open>END:VEVENT\<close> line, and the stamps of its \<open>DTSTART\<close> and
  \<open>DTEND\<close> lines decode to instants that are exactly the lesson's duration apart.  The text
  depends on the environment only through the export timestamp.
\<close>

lemma single_lesson_calendar:
  assumes f: "single_line_fields l"
    and ys: "four_digit_year (cal_scheduledAt l)"
    and ye: "four_digit_year (cal_scheduledAt l + cal_duration l * 60000)"
  shows "generateICalendar e [l] = join_js CRLF (icalLines e [l])
       \<and> split_crlf (generateICalendar e [l]) =
           [''BEGIN:VCALENDAR'', ''VERSION:2.0'', ''PRODID:-//Skill Exchange Platform//EN'',
            ''CALSCALE:GREGORIAN'',
            ''BEGIN:VEVENT'',
            ''UID:'' @ cal_id l @ ''@skillexchange.com'',
            ''DTSTAMP:'' @ formatDate (now e),
            ''DTSTART:'' @ formatDate (cal_scheduledAt l),
            ''DTEND:'' @ formatDate (cal_scheduledAt l + cal_duration l * 60000),
            ''SUMMARY:'' @ cal_title l,
            ''DESCRIPTION:Lesson with '' @ person_name (cal_teacher l),
            ''ORGANIZER;CN='' @ person_name (cal_teacher l) @ '':mailto:''
               @ person_email (cal_teacher l),
            ''ATTENDEE;CN='' @ person_name (cal_student l) @ '':mailto:''
               @ person_email (cal_student l),
            ''STATUS:CONFIRMED'',
            ''END:VEVENT'',
            ''END:VCALENDAR'']
       \<and> count_list (split_crlf (generateICalendar e [l])) ''BEGIN:VEVENT'' = 1
       \<and> count_list (split_crlf (generateICalendar e [l])) ''END:VEVENT'' = 1
       \<and> map decodeStamp (property_values ''DTSTART'' (split_crlf (generateICalendar e [l])))
           = [Some (cal_scheduledAt l div 1000)]
       \<and> map decodeStamp (property_values ''DTEND'' (split_crlf (generateICalendar e [l])))
           = [Some (cal_scheduledAt l div 1000 + cal_duration l * 60)]
       \<and> (now e' = now e \<longrightarrow> generateICalendar e' [l] = generateICalendar e [l])"
proof -
  have ne: "icalLines e [l] \<noteq> []" by (simp add: icalLines_def)
  have sp: "split_crlf (generateICalendar e [l]) = icalLines e [l]"
    unfolding generateICalendar_def
    using icalLines_single_line[OF f] ne by (rule split_crlf_join)
  have ds: "decodeStamp (formatDate (cal_scheduledAt l)) = Some (cal_scheduledAt l div 1000)"
    using year_in_range[OF ys] by (rule decodeStamp_formatDate)
  have "(cal_scheduledAt l + cal_duration l * 60000) div 1000
        = cal_scheduledAt l div 1000 + cal_duration l * 60"
  proof -
    have "cal_scheduledAt l + cal_duration l * 60000 = cal_scheduledAt l + (cal_duration l * 60) * 1000"
      by simp
    then show ?thesis by (simp only: div_mult_self3)
  qed
  with decodeStamp_formatDate[OF year_in_range[OF ye]]
  have de: "decodeStamp (formatDate (cal_scheduledAt l + cal_duration l * 60000))
            = Some (cal_scheduledAt l div 1000 + cal_duration l * 60)"
    by simp
  have det: "now e' = now e \<longrightarrow> generateICalendar e' [l] = generateICalendar e [l]"
    by (simp add: generateICalendar_def icalLines_def eventLines_def Let_def)
  show ?thesis
    unfolding sp property_DTSTART property_DTEND
    using ds de det count_BEGIN[of e l] count_END[of e l]
    by (simp add: generateICalendar_def) (simp add: icalLines_def eventLines_def Let_def)
qed

lemma single_lesson_calendar_example:
  "single_line_fields demo_cal_lesson
   \<and> four_digit_year (cal_scheduledAt demo_cal_lesson)
   \<and> four_digit_year (cal_scheduledAt demo_cal_lesson + cal_duration demo_cal_lesson * 60000)
   \<and> count_list (split_crlf (generateICalendar demo_env [demo_cal_lesson])) ''BEGIN:VEVENT'' = 1
   \<and> count_list (split_crlf (generateICalendar demo_env [demo_cal_lesson])) ''END:VEVENT'' = 1
   \<and> map decodeStamp
         (property_values ''DTSTART'' (split_crlf (generateICalendar demo_env [demo_cal_lesson])))
       = [Some 1767607200]
   \<and> map decodeStamp
         (property_values ''DTEND'' (split_crlf (generateICalendar demo_env [demo_cal_lesson])))
       = [Some 1767610800]"
proof -
  have 1: "single_line_fields demo_cal_lesson"
    by (simp add: single_line_fields_def single_line_def demo_cal_lesson_def)
  have 2: "four_digit_year (cal_scheduledAt demo_cal_lesson)"
    by (simp add: four_digit_year_def demo_cal_lesson_def)
  have 3: "four_digit_year (cal_scheduledAt demo_cal_lesson + cal_duration demo_cal_lesson * 60000)"
    by (simp add: four_digit_year_def demo_cal_lesson_def)
  have 4: "cal_scheduledAt demo_cal_lesson div 1000 = 1767607200"
    "cal_scheduledAt demo_cal_lesson div 1000 + cal_duration demo_cal_lesson * 60 = 1767610800"
    by (simp_all add: demo_cal_lesson_def)
  note T = single_lesson_calendar[OF 1 2 3, of demo_env demo_env]
  from T have b: "count_list (split_crlf (generateICalendar demo_env [demo_cal_lesson]))
                    ''BEGIN:VEVENT'' = 1"
    by blast
  from T have n: "count_list (split_crlf (generateICalendar demo_env [demo_cal_lesson]))
                    ''END:VEVENT'' = 1"
    by blast
  from T have s: "map decodeStamp
         (property_values ''DTSTART'' (split_crlf (generateICalendar demo_env [demo_cal_lesson])))
       = [Some (cal_scheduledAt demo_cal_lesson div 1000)]"
    by blast
  from T have d: "map decodeStamp
         (property_values ''DTEND'' (split_crlf (generateICalendar demo_env [demo_cal_lesson])))
       = [Some (cal_scheduledAt demo_cal_lesson div 1000 + cal_duration demo_cal_lesson * 60)]"
    by blast
  from 1 2 3 b n s[unfolded 4(1)] d[unfolded 4(2)] show ?thesis by (intro conjI)
qed

text \<open>
  C9.  The claim asks for exactly one \<open>BEGIN:VEVENT\<close>/\<open>END:VEVENT\<close> pair for every single
  lesson.  The code writes the text fields into the lines as they are, with no escaping: for
  a title that contains a CRLF line break followed by \<open>BEGIN:VEVENT\<close>, the exported text has
  two \<open>BEGIN:VEVENT\<close> lines and one \<open>END:VEVENT\<close> line.
\<close>

theorem unescaped_title_adds_event_line:
  "count_list
     (split_crlf (generateICalendar demo_env
        [demo_cal_lesson\<lparr>cal_title := ''Python: x'' @ CRLF @ ''BEGIN:VEVENT''\<rparr>]))
     ''BEGIN:VEVENT'' = 2
   \<and> count_list
     (split_crlf (generateICalendar demo_env
        [demo_cal_lesson\<lparr>cal_title := ''Python: x'' @ CRLF @ ''BEGIN:VEVENT''\<rparr>]))
     ''END:VEVENT'' = 1"
  by code_simp

end
